theory Spec2Isabelle
  imports
    Complex_Main
    "HOL-Library.List_Lexorder"
    "HOL-Library.Char_ord"
    "HOL-Library.Product_Lexorder"
    "HOL-Library.Monad_Syntax"
begin

section \<open>Python strings\<close>

text \<open>
  A Python \<open>str\<close> is modelled as a \<open>string\<close> whose characters are the code points
  0 to 255. On these code points \<open>\d\<close> is exactly the ten ASCII digits, \<open>sorted\<close>
  on strings is the lexicographic order of \<open>List_Lexorder\<close> over \<open>Char_ord\<close>,
  \<open>str.strip()\<close> removes the characters for which \<open>str.isspace\<close> holds, and
  \<open>str.lower()\<close> maps A to Z and the upper-case letters of Latin-1.
\<close>

definition newline :: char where
  "newline = CHR 0x0A"

definition is_digit :: "char \<Rightarrow> bool" where
  "is_digit c = (c \<in> set ''0123456789'')"

definition is_space :: "char \<Rightarrow> bool" where
  "is_space c = ((of_char c :: nat) \<in> set [9, 10, 11, 12, 13, 28, 29, 30, 31, 32, 133, 160])"

definition strip :: "string \<Rightarrow> string" where
  "strip s = rev (dropWhile is_space (rev (dropWhile is_space s)))"

definition lower_char :: "char \<Rightarrow> char" where
  "lower_char c =
     (let n = (of_char c :: nat) in
      if (65 \<le> n \<and> n \<le> 90) \<or> (192 \<le> n \<and> n \<le> 222 \<and> n \<noteq> 215)
      then char_of (n + 32) else c)"

definition lower :: "string \<Rightarrow> string" where
  "lower s = map lower_char s"

text \<open>\<open>str.isdigit()\<close>: non-empty and all digits.\<close>

definition isdigit :: "string \<Rightarrow> bool" where
  "isdigit s = (s \<noteq> [] \<and> list_all is_digit s)"

text \<open>\<open>int(s)\<close> on a string of digits, and \<open>str(n)\<close> on a natural number and an integer.\<close>

definition digit_val :: "char \<Rightarrow> nat" where
  "digit_val c = (of_char c :: nat) - 48"

definition int_of_digits :: "string \<Rightarrow> int" where
  "int_of_digits s = int (foldl (\<lambda>a c. 10 * a + digit_val c) 0 s)"

function str_nat :: "nat \<Rightarrow> string" where
  "str_nat n = (if n < 10 then [char_of (48 + n)] else str_nat (n div 10) @ [char_of (48 + n mod 10)])"
  by pat_completeness auto
termination
  by (relation "measure id") auto

declare str_nat.simps [simp del]

definition str_int :: "int \<Rightarrow> string" where
  "str_int i = (if i < 0 then CHR ''-'' # str_nat (nat (- i)) else str_nat (nat i))"

section \<open>The regular expressions of the source\<close>

text \<open>
  Each piece of a pattern is a function from the text still to match to the captured text
  and the rest, \<open>None\<close> when the piece does not match. Every repetition of the source's
  patterns is followed by a character outside its class, so the greedy match is the only
  one and no backtracking into a repetition can succeed.
\<close>

fun lit :: "string \<Rightarrow> string \<Rightarrow> string option" where
  "lit [] s = Some s"
| "lit (c # cs) [] = None"
| "lit (c # cs) (d # ds) = (if c = d then lit cs ds else None)"

text \<open>\<open>[class]+\<close>\<close>

definition many1 :: "(char \<Rightarrow> bool) \<Rightarrow> string \<Rightarrow> (string \<times> string) option" where
  "many1 P s = (if takeWhile P s = [] then None else Some (takeWhile P s, dropWhile P s))"

text \<open>\<open>[class]{n}\<close>\<close>

definition exactly :: "nat \<Rightarrow> (char \<Rightarrow> bool) \<Rightarrow> string \<Rightarrow> (string \<times> string) option" where
  "exactly n P s =
     (if n \<le> length s \<and> list_all P (take n s) then Some (take n s, drop n s) else None)"

text \<open>
  \<open>(?P<tail>.+)$\<close>: the dot matches every character but the newline, and \<open>$\<close> matches
  at the end of the text and before a newline that ends it.
\<close>

definition tail_end :: "string \<Rightarrow> string option" where
  "tail_end s =
     (if s \<noteq> [] \<and> newline \<notin> set s then Some s
      else if s \<noteq> [] \<and> last s = newline \<and> butlast s \<noteq> [] \<and> newline \<notin> set (butlast s)
      then Some (butlast s)
      else None)"

definition is_obs_char :: "char \<Rightarrow> bool" where
  "is_obs_char c =
     (c \<in> set ''ABCDEFGHIJKLMNOPQRSTUVWXYZabcdefghijklmnopqrstuvwxyz0123456789-'')"

definition is_flt_char :: "char \<Rightarrow> bool" where
  "is_flt_char c =
     (c \<in> set ''ABCDEFGHIJKLMNOPQRSTUVWXYZabcdefghijklmnopqrstuvwxyz0123456789-+'')"

record base_groups =
  g_tgt :: string
  g_pp :: string
  g_ymd :: string
  g_obs :: string
  g_flt :: string
  g_px :: "string option"
  g_tail :: string

text \<open>\<open>_(?P<px>\d+)px\<close>, the body of the optional group.\<close>

definition px_group :: "string \<Rightarrow> (string \<times> string) option" where
  "px_group s = do {
     s1 \<leftarrow> lit ''_'' s;
     (d, s2) \<leftarrow> many1 is_digit s1;
     s3 \<leftarrow> lit ''px'' s2;
     Some (d, s3)
   }"

text \<open>\<open>_(?P<tail>.+)$\<close>\<close>

definition tail_group :: "string \<Rightarrow> string option" where
  "tail_group s = do { s1 \<leftarrow> lit ''_'' s; tail_end s1 }"

text \<open>
  \<open>(?:_(?P<px>\d+)px)?_(?P<tail>.+)$\<close>: the optional group is greedy, so the match
  with it is tried first, and the match without it only when the first fails.
\<close>

definition px_tail :: "string \<Rightarrow> (string option \<times> string) option" where
  "px_tail s =
     (case do { (d, s1) \<leftarrow> px_group s; t \<leftarrow> tail_group s1; Some (Some d, t) } of
        Some r \<Rightarrow> Some r
      | None \<Rightarrow> do { t \<leftarrow> tail_group s; Some (None, t) })"

text \<open>
  \<open>base.match(fn)\<close> for
  \<open>^(?P<tgt>TIC\d+)-(?P<pp>\d{2})_(?P<ymd>\d{8})_(?P<obs>[A-Za-z0-9\-]+)_(?P<flt>[A-Za-z0-9\-\+]+)(?:_(?P<px>\d+)px)?_(?P<tail>.+)$\<close>
\<close>

definition base_match :: "string \<Rightarrow> base_groups option" where
  "base_match s = do {
     s1 \<leftarrow> lit ''TIC'' s;
     (num, s2) \<leftarrow> many1 is_digit s1;
     s3 \<leftarrow> lit ''-'' s2;
     (pp, s4) \<leftarrow> exactly 2 is_digit s3;
     s5 \<leftarrow> lit ''_'' s4;
     (ymd, s6) \<leftarrow> exactly 8 is_digit s5;
     s7 \<leftarrow> lit ''_'' s6;
     (obs, s8) \<leftarrow> many1 is_obs_char s7;
     s9 \<leftarrow> lit ''_'' s8;
     (flt, s10) \<leftarrow> many1 is_flt_char s9;
     (px, tail) \<leftarrow> px_tail s10;
     Some \<lparr>g_tgt = ''TIC'' @ num, g_pp = pp, g_ymd = ymd, g_obs = obs, g_flt = flt,
            g_px = px, g_tail = tail\<rparr>
   }"

text \<open>\<open>re.fullmatch(r'(\d+)\.(\d{2})', s)\<close>, giving the two groups.\<close>

definition id_match :: "string \<Rightarrow> (string \<times> string) option" where
  "id_match s = do {
     (num, s1) \<leftarrow> many1 is_digit s;
     s2 \<leftarrow> lit ''.'' s1;
     (pp, s3) \<leftarrow> exactly 2 is_digit s2;
     if s3 = [] then Some (num, pp) else None
   }"

section \<open>The rule table and the filename classifier\<close>

definition lbl_table :: string where
  "lbl_table = ''AstroImageJ Photometry Measurement Table''"

definition lbl_plotcfg :: string where
  "lbl_plotcfg = ''AstroImageJ Plot Configuration File''"

definition lbl_radec :: string where
  "lbl_radec = ''AstroImageJ Photometry Aperture File''"

definition lbl_notes :: string where
  "lbl_notes = ''Notes and Results Text''"

definition lbl_wcs :: string where
  "lbl_wcs = ''Plate-Solved Image''"

text \<open>
  \<open>allowed_specs\<close>, in the insertion order of the dictionary. Every key of the source is
  \<open>^literal$\<close> with the dots escaped; a tail never holds a newline, so
  \<open>re.fullmatch(pat, tail)\<close> is equality with the literal, which is what the first
  component holds here.
\<close>

definition allowed_specs :: "(string \<times> string) list" where
  "allowed_specs = [
     (''measurements_NEBcheck.zip'', ''NEB Depth Plots''),
     (''measurements_NEB-table.txt'', ''NEB Table''),
     (''measurements_dmagRMS-plot.png'', ''Dmag vs. RMS Plot''),
     (''measurements.tbl'', lbl_table),
     (''measurements.plotcfg'', lbl_plotcfg),
     (''measurements.radec'', lbl_radec),
     (''lightcurve.png'', ''Light Curve Plot''),
     (''compstar-lightcurves.png'', ''Compstar Light Curve Plots''),
     (''field.png'', ''Field Image with Apertures''),
     (''field-zoom.png'', ''Zoomed-in FOV''),
     (''seeing-profile.png'', ''Seeing Profile''),
     (''notes.txt'', lbl_notes),
     (''WCS.fits'', lbl_wcs),
     (''subset.csv'', ''Photometry Table Subset for Joint Fitting'')
   ]"

definition fullmatch :: "string \<Rightarrow> string \<Rightarrow> bool" where
  "fullmatch pat tail = (tail = pat)"

text \<open>\<open>for pat,d in allowed_specs.items(): if re.fullmatch(pat,tail): desc=d; break\<close>\<close>

fun first_label :: "(string \<times> string) list \<Rightarrow> string \<Rightarrow> string option" where
  "first_label [] tail = None"
| "first_label ((pat, d) # ps) tail = (if fullmatch pat tail then Some d else first_label ps tail)"

record file_record =
  fn :: string
  desc :: string
  ymd :: string
  obs :: string
  flt :: string
  px :: string

text \<open>
  The body of the loop over the files (lines 87 to 99): \<open>Inl\<close> is the pair appended to
  \<open>rejected\<close> before \<open>continue\<close>, \<open>Inr\<close> the dictionary appended to \<open>recognized\<close>.
\<close>

definition classify :: "string \<Rightarrow> string \<Rightarrow> (string \<times> string) + file_record" where
  "classify tgt_prefix name =
     (case base_match name of
        None \<Rightarrow> Inl (name, ''Name does not match pattern'')
      | Some m \<Rightarrow>
          if g_tgt m @ ''-'' @ g_pp m \<noteq> tgt_prefix then Inl (name, ''TIC/planet mismatch'')
          else (case first_label allowed_specs (g_tail m) of
                  None \<Rightarrow> Inl (name, ''Unrecognized filetype token'')
                | Some d \<Rightarrow>
                    if d = [] then Inl (name, ''Unrecognized filetype token'')
                    else Inr \<lparr>fn = name, desc = d, ymd = g_ymd m, obs = g_obs m, flt = g_flt m,
                              px = (case g_px m of None \<Rightarrow> [] | Some d \<Rightarrow> d)\<rparr>))"

record scan_state =
  recognized :: "file_record list"
  rejected :: "(string \<times> string) list"
  bases :: "(string \<times> string) list"
  global_notes :: "(string \<times> string \<times> string) list"

definition scan_init :: scan_state where
  "scan_init = \<lparr>recognized = [], rejected = [], bases = [], global_notes = []\<rparr>"

text \<open>One iteration; \<open>bases\<close> is a set in the source, here a list without duplicates.\<close>

definition scan_step :: "string \<Rightarrow> scan_state \<Rightarrow> string \<Rightarrow> scan_state" where
  "scan_step tgt_prefix st name =
     (case classify tgt_prefix name of
        Inl rj \<Rightarrow> st\<lparr>rejected := rejected st @ [rj]\<rparr>
      | Inr x \<Rightarrow>
          st\<lparr>bases := List.insert (ymd x, obs x) (bases st),
             global_notes :=
               (if desc x = lbl_notes then global_notes st @ [(fn x, ymd x, obs x)]
                else global_notes st),
             recognized := recognized st @ [x]\<rparr>)"

definition scan :: "string \<Rightarrow> string list \<Rightarrow> scan_state" where
  "scan tgt_prefix files = foldl (scan_step tgt_prefix) scan_init files"

section \<open>Tables, plate solutions and the other collaborators\<close>

text \<open>
  A float is modelled by the real number it denotes: comparison, negation, median and the
  timing arithmetic are those of the reals. NaN, the infinities and rounding error are
  outside the model, except where the source tests for them by name (the plate scales).

  A cell of a measurement table is \<open>Num r\<close> when \<open>float\<close> of it is \<open>r\<close> and
  \<open>Txt s\<close> when \<open>float\<close> rejects it; \<open>np.array(column, dtype=float)\<close> raises
  ValueError when a cell is \<open>Txt\<close>. A table is the list of its columns in order;
  \<open>len(t)\<close> is the length of its first column, as in astropy.
\<close>

datatype cell = Num real | Txt string

type_synonym column = "cell list"

type_synonym table = "(string \<times> column) list"

definition colnames :: "table \<Rightarrow> string list" where
  "colnames t = map fst t"

definition len_table :: "table \<Rightarrow> nat" where
  "len_table t = (case t of [] \<Rightarrow> 0 | (n, c) # cs \<Rightarrow> length c)"

datatype exn = ReaderError | ValueError | IndexError | KeyError | EOFError | ConnectionError

fun cell_float :: "cell \<Rightarrow> exn + real" where
  "cell_float (Num r) = Inr r"
| "cell_float (Txt s) = Inl ValueError"

text \<open>\<open>np.array(col, dtype=float)\<close>\<close>

fun float_array :: "column \<Rightarrow> exn + real list" where
  "float_array [] = Inr []"
| "float_array (c # cs) =
     (case cell_float c of
        Inl e \<Rightarrow> Inl e
      | Inr r \<Rightarrow> (case float_array cs of Inl e \<Rightarrow> Inl e | Inr rs \<Rightarrow> Inr (r # rs)))"

text \<open>\<open>np.nanmedian\<close> of a non-empty array without NaN.\<close>

definition median :: "real list \<Rightarrow> real" where
  "median xs =
     (let s = sort xs; n = length s in
      if odd n then s ! (n div 2) else (s ! (n div 2 - 1) + s ! (n div 2)) / 2)"

text \<open>\<open>np.nanmax(sr) - np.nanmin(sr)\<close> of a non-empty array.\<close>

definition vspan :: "real list \<Rightarrow> real" where
  "vspan xs = Max (set xs) - Min (set xs)"

text \<open>
  The plate scales of a file: \<open>WcsFail\<close> when opening the file or building the WCS
  raises, otherwise one scale per axis, \<open>NotFinite\<close> for a NaN or an infinity.
\<close>

datatype scale = Fin real | NotFinite

datatype wcs = WcsFail | Scales "scale list"

fun scale_ok :: "scale \<Rightarrow> bool" where
  "scale_ok (Fin r) = (r > 0)"
| "scale_ok NotFinite = False"

fun scale_val :: "scale \<Rightarrow> real" where
  "scale_val (Fin r) = r"
| "scale_val NotFinite = 0"

text \<open>
  A call of \<open>Session.post\<close>: it raises, returns nothing, or returns a status code.
\<close>

datatype http = ConnFail | NoResponse | Status nat

record args =
  username :: string
  password :: string
  tic :: string
  toi :: string
  directory :: string
  groupname :: string
  coverage :: "string option"
  telsize :: "string option"
  camera :: "string option"
  psf :: "string option"
  deltamag :: "string option"
  notes_arg :: "string option"
  skip_summary :: bool
  skip_files :: bool

text \<open>
  What the run reads from outside: the directory, the service's answers, the two
  readers, the lines typed at the prompts, and the library functions on floats that the
  model does not compute (\<open>float\<close> accepting a string, and the two number formats).
\<close>

record env =
  isdir :: bool
  listing :: "string list"
  login :: http
  read_table :: "string \<Rightarrow> table option"
  read_wcs :: "string \<Rightarrow> wcs"
  stdin :: "string list"
  is_float :: "string \<Rightarrow> bool"
  fmt_pixscale :: "real list \<Rightarrow> string"
  fmt_photaprad :: "real \<Rightarrow> string"
  post_tseries :: "string \<Rightarrow> http"
  post_file :: "string \<Rightarrow> http"

section \<open>Selecting the canonical measurement table\<close>

type_synonym stat = "string \<times> real \<times> nat \<times> string"

text \<open>The body of the loop over the candidates (lines 134 to 147).\<close>

definition cand_stat :: "(string \<Rightarrow> table option) \<Rightarrow> file_record \<Rightarrow> exn + stat" where
  "cand_stat rd x =
     (case rd (fn x) of
        None \<Rightarrow> Inr (fn x, - 1000000000, 1, px x)
      | Some t \<Rightarrow>
          (case map_of t ''Source_Radius'' of
             None \<Rightarrow> Inr (fn x, - 1000000000, 1, px x)
           | Some c \<Rightarrow>
               (case float_array c of
                  Inl e \<Rightarrow> Inl e
                | Inr sr \<Rightarrow>
                    if sr = [] then Inl ValueError
                    else Inr (fn x, median sr, (if vspan sr > 0 then 1 else 0), px x))))"

fun cand_stats :: "(string \<Rightarrow> table option) \<Rightarrow> file_record list \<Rightarrow> exn + stat list" where
  "cand_stats rd [] = Inr []"
| "cand_stats rd (x # xs) =
     (case cand_stat rd x of
        Inl e \<Rightarrow> Inl e
      | Inr z \<Rightarrow> (case cand_stats rd xs of Inl e \<Rightarrow> Inl e | Inr zs \<Rightarrow> Inr (z # zs)))"

text \<open>\<open>lambda z:(-z[1],z[2],(-int(z[3]) if z[3].isdigit() else 0),z[0])\<close>\<close>

definition stat_key :: "stat \<Rightarrow> real \<times> nat \<times> int \<times> string" where
  "stat_key z =
     (case z of (name, med, var, pxs) \<Rightarrow>
        (- med, var, (if isdigit pxs then - int_of_digits pxs else 0), name))"

text \<open>\<open>stats.sort(key=...)\<close> then \<open>stats[0][0]\<close>, for a non-empty \<open>stats\<close>.\<close>

definition choose_table :: "stat list \<Rightarrow> string option" where
  "choose_table stats = (if stats = [] then None else Some (fst (hd (sort_key stat_key stats))))"

definition cands_of :: "file_record list \<Rightarrow> string \<Rightarrow> file_record list" where
  "cands_of recd f = filter (\<lambda>x. flt x = f \<and> desc x = lbl_table) recd"

text \<open>
  The loop over the filters (lines 130 to 150): \<open>chosen_tbl_by_flt\<close> as an association
  list, with no entry for a filter without candidates.
\<close>

fun select_tables ::
  "(string \<Rightarrow> table option) \<Rightarrow> file_record list \<Rightarrow> string list \<Rightarrow> exn + (string \<times> string) list" where
  "select_tables rd recd [] = Inr []"
| "select_tables rd recd (f # fs) =
     (case cand_stats rd (cands_of recd f) of
        Inl e \<Rightarrow> Inl e
      | Inr stats \<Rightarrow>
          (case select_tables rd recd fs of
             Inl e \<Rightarrow> Inl e
           | Inr rest \<Rightarrow>
               (case choose_table stats of
                  None \<Rightarrow> Inr rest
                | Some c \<Rightarrow> Inr ((f, c) # rest))))"

section \<open>Completeness\<close>

definition required_keys_per_filter :: "string list" where
  "required_keys_per_filter = [
     lbl_table,
     lbl_plotcfg,
     lbl_radec,
     ''Compstar Light Curve Plots'',
     ''Field Image with Apertures'',
     ''Zoomed-in FOV'',
     lbl_wcs,
     ''Seeing Profile''
   ]"

definition required_global :: "string list" where
  "required_global = [lbl_notes]"

text \<open>
  \<open>optional_keys\<close> iterates over a Python set, whose order is not fixed; the model
  takes the labels in the order of the rule table.
\<close>

definition optional_keys :: "string list" where
  "optional_keys =
     filter (\<lambda>v. v \<notin> set required_keys_per_filter \<and> v \<notin> set required_global)
       (remdups (map snd allowed_specs))"

text \<open>
  \<open>found[d]\<close> for one filter: the names of the recognized files of the filter, date
  and observatory whose descriptor is \<open>d\<close>, in the order of \<open>recognized\<close>.
\<close>

definition found :: "file_record list \<Rightarrow> string \<Rightarrow> string \<Rightarrow> string \<Rightarrow> string \<Rightarrow> string list" where
  "found recd f date observatory d =
     map fn (filter (\<lambda>x. flt x = f \<and> ymd x = date \<and> obs x = observatory \<and> desc x = d) recd)"

text \<open>\<open>[k for k in keys if not found.get(k,[])]\<close>\<close>

definition missing :: "string list \<Rightarrow> file_record list \<Rightarrow> string \<Rightarrow> string \<Rightarrow> string \<Rightarrow> string list" where
  "missing keys recd f date observatory = filter (\<lambda>k. found recd f date observatory k = []) keys"

section \<open>Effects: printing, the bell, prompts, posts, exits\<close>

datatype fatal =
    InvalidDirectory | NoTelsize | NoCamera | NoCoverage | BadIdentifiers | PlanetMismatch
  | LoginFailed | Disallowed string | NoRecognized | MultipleDates "string list" "string list"
  | NotesCount | NotesMismatch | AbortedMissing | NoPsf | NoDeltamag
  | NoMeasTable string | NoJD string | NoWCS string | UserCancelled
  | TseriesFailed string | UploadFailed string

record entries =
  e_planet :: string
  e_tel :: string
  e_telsize :: string
  e_camera :: string
  e_filter :: string
  e_pixscale :: string
  e_psf :: string
  e_photaprad :: string
  e_obsdate :: string
  e_obsdur :: string
  e_obsnum :: string
  e_obstype :: string
  e_transcov :: string
  e_deltamag :: string
  e_tag :: string
  e_groupname :: string
  e_notes :: string
  e_id :: string

datatype prompt = AskProceed | AskPsf string | AskDeltamag string | AskSubmit

text \<open>
  What the run does to the outside, in order. A print is an event that carries the data
  printed, not the formatted text.
\<close>

datatype event =
    Banner
  | PrintErr fatal
  | Bell
  | LoggedIn
  | PrintTitle string
  | PrintDetected string string "string list"
  | PrintRecognized string "(string \<times> string) list"
  | PrintRejected "(string \<times> string) list"
  | PrintGlobal bool
  | PrintOptional string "string list"
  | PrintMissing "(string \<times> string list) list"
  | PrintNotNumeric
  | PrintSummary string entries
  | PrintDisabled
  | PrintCompleted
  | Input prompt
  | PostLogin string string
  | PostTseries entries
  | PostFile string string entries

text \<open>
  How the call of \<open>upload\<close> ends: it returns, \<open>sys.exit(n)\<close> is called, or an
  exception leaves it. The interpreter exits with status 1 on an exception nobody catches.
\<close>

datatype outcome = Returned | SysExit nat | Raised exn

fun exit_code :: "outcome \<Rightarrow> nat" where
  "exit_code Returned = 0"
| "exit_code (SysExit n) = n"
| "exit_code (Raised e) = 1"

record io =
  inp :: "string list"
  out :: "event list"

type_synonym 'a act = "io \<Rightarrow> (outcome + 'a) \<times> io"

definition ret :: "'a \<Rightarrow> 'a act" where
  "ret x s = (Inr x, s)"

definition bind_io :: "'a act \<Rightarrow> ('a \<Rightarrow> 'b act) \<Rightarrow> 'b act" where
  "bind_io m f s = (case m s of (Inl e, s') \<Rightarrow> (Inl e, s') | (Inr x, s') \<Rightarrow> f x s')"

definition emit :: "event \<Rightarrow> unit act" where
  "emit e s = (Inr (), s\<lparr>out := out s @ [e]\<rparr>)"

text \<open>\<open>_err(m)\<close>: \<open>print(m); _bell(); sys.exit(1)\<close>\<close>

definition err :: "fatal \<Rightarrow> 'a act" where
  "err m s = (Inl (SysExit 1), s\<lparr>out := out s @ [PrintErr m, Bell]\<rparr>)"

definition raise_io :: "exn \<Rightarrow> 'a act" where
  "raise_io e s = (Inl (Raised e), s)"

text \<open>\<open>input(prompt)\<close>: the next line typed, EOFError when there is none.\<close>

definition input :: "prompt \<Rightarrow> string act" where
  "input p s =
     (case inp s of
        [] \<Rightarrow> (Inl (Raised EOFError), s\<lparr>out := out s @ [Input p]\<rparr>)
      | l # ls \<Rightarrow> (Inr l, s\<lparr>inp := ls, out := out s @ [Input p]\<rparr>))"

text \<open>\<open>if r is None or r.status_code>=400: _err(m)\<close>, after a post that may raise.\<close>

fun check_post :: "http \<Rightarrow> fatal \<Rightarrow> unit act" where
  "check_post ConnFail m = raise_io ConnectionError"
| "check_post NoResponse m = err m"
| "check_post (Status c) m = (if c \<ge> 400 then err m else ret ())"

text \<open>A \<open>for\<close> loop whose body is an action.\<close>

fun for_io :: "'a list \<Rightarrow> ('a \<Rightarrow> unit act) \<Rightarrow> unit act" where
  "for_io [] body = ret ()"
| "for_io (x # xs) body = bind_io (body x) (\<lambda>_. for_io xs body)"

section \<open>Arguments, login, listing\<close>

record ids =
  tic_num :: string
  planet_tic :: string
  toi_lbl_display :: string
  toi_lbl_upload :: string
  target_title :: string
  tgt_prefix :: string
  telsize_str :: string
  camera_str :: string
  coverage_str :: string

text \<open>\<open>not v\<close> for an argument that is \<open>None\<close> or a string.\<close>

fun falsy :: "string option \<Rightarrow> bool" where
  "falsy None = True"
| "falsy (Some v) = (v = [])"

fun str_of :: "string option \<Rightarrow> string" where
  "str_of None = ''None''"
| "str_of (Some v) = v"

text \<open>Lines 23 to 45.\<close>

definition check_args :: "env \<Rightarrow> args \<Rightarrow> ids act" where
  "check_args ev a =
     bind_io (emit Banner) (\<lambda>_.
       if \<not> isdir ev then err InvalidDirectory
       else if falsy (telsize a) then err NoTelsize
       else if falsy (camera a) then err NoCamera
       else if falsy (coverage a) then err NoCoverage
       else
         let tic_str = strip (tic a);
             toi_str = strip (toi a);
             m_tic = id_match tic_str;
             m_toi = (if toi_str \<noteq> ''0'' then id_match toi_str else None)
         in
           (case m_tic of
              None \<Rightarrow> err BadIdentifiers
            | Some (tnum, ptic) \<Rightarrow>
                if toi_str \<noteq> ''0'' \<and> m_toi = None then err BadIdentifiers
                else
                  (case m_toi of
                     None \<Rightarrow>
                       ret \<lparr>tic_num = tnum, planet_tic = ptic,
                            toi_lbl_display = [], toi_lbl_upload = [],
                            target_title = ''TIC '' @ tic_str @ '' (no TOI identifier)'',
                            tgt_prefix = ''TIC'' @ tnum @ ''-'' @ ptic,
                            telsize_str = str_of (telsize a), camera_str = str_of (camera a),
                            coverage_str = str_of (coverage a)\<rparr>
                   | Some (toi_num, planet_toi) \<Rightarrow>
                       if ptic \<noteq> planet_toi then err PlanetMismatch
                       else
                         ret \<lparr>tic_num = tnum, planet_tic = ptic,
                              toi_lbl_display = ''TOI '' @ toi_str,
                              toi_lbl_upload = ''TOI'' @ toi_str,
                              target_title = ''TIC '' @ tic_str @ '' (TOI '' @ toi_str @ '')'',
                              tgt_prefix = ''TIC'' @ tnum @ ''-'' @ ptic,
                              telsize_str = str_of (telsize a), camera_str = str_of (camera a),
                              coverage_str = str_of (coverage a)\<rparr>)))"

text \<open>Lines 48 to 50.\<close>

definition do_login :: "env \<Rightarrow> args \<Rightarrow> unit act" where
  "do_login ev a =
     bind_io (emit (PostLogin (username a) (password a))) (\<lambda>_.
     bind_io (check_post (login ev) LoginFailed) (\<lambda>_.
     emit LoggedIn))"

definition endswith :: "string \<Rightarrow> string \<Rightarrow> bool" where
  "endswith s suf = (length suf \<le> length s \<and> drop (length s - length suf) s = suf)"

text \<open>\<open>sub in s\<close>\<close>

fun contains :: "string \<Rightarrow> string \<Rightarrow> bool" where
  "contains sub [] = (sub = [])"
| "contains sub (c # cs) = (lit sub (c # cs) \<noteq> None \<or> contains sub cs)"

definition disallowed :: "string \<Rightarrow> bool" where
  "disallowed f = (endswith f ''seeing-profile.gif'' \<or> contains ''bjd-flux-err'' f)"

text \<open>Lines 52 to 54.\<close>

definition list_files :: "env \<Rightarrow> string list act" where
  "list_files ev =
     (let files = sort (listing ev) in
      case find disallowed files of
        Some f \<Rightarrow> err (Disallowed f)
      | None \<Rightarrow> ret files)"

section \<open>Consistency of the recognized set\<close>

record session =
  date :: string
  observatory :: string
  filter_list :: "string list"

text \<open>Lines 101 to 111.\<close>

definition consistency :: "ids \<Rightarrow> scan_state \<Rightarrow> session act" where
  "consistency i st =
     (if recognized st = [] then err NoRecognized
      else
        let dates = remdups (map fst (bases st));
            observatories = remdups (map snd (bases st))
        in
          if length dates > 1 \<or> length observatories > 1
          then err (MultipleDates (sort dates) (sort observatories))
          else
            let d = hd dates;
                ob = hd observatories;
                fl = sort (remdups (map flt (recognized st)))
            in
              bind_io (emit (PrintTitle (target_title i))) (\<lambda>_.
              bind_io (emit (PrintDetected d ob fl)) (\<lambda>_.
                if length (global_notes st) \<noteq> 1 then err NotesCount
                else if list_ex (\<lambda>(nfn, nymd, nobs). nymd \<noteq> d \<or> nobs \<noteq> ob) (global_notes st)
                then err NotesMismatch
                else ret \<lparr>date = d, observatory = ob, filter_list = fl\<rparr>)))"

section \<open>Listing the recognized files and checking completeness\<close>

definition order_types :: "string list" where
  "order_types = [
     lbl_table,
     lbl_plotcfg,
     lbl_radec,
     ''Light Curve Plot'',
     ''Compstar Light Curve Plots'',
     ''Field Image with Apertures'',
     ''Zoomed-in FOV'',
     ''Seeing Profile'',
     lbl_notes,
     lbl_wcs,
     ''NEB Table'',
     ''NEB Depth Plots'',
     ''Dmag vs. RMS Plot'',
     ''Photometry Table Subset for Joint Fitting''
   ]"

text \<open>Lines 153 to 165: the files of one filter in display order.\<close>

definition ordered_display ::
  "file_record list \<Rightarrow> (string \<times> string) list \<Rightarrow> session \<Rightarrow> string \<Rightarrow> (string \<times> string) list" where
  "ordered_display recd chosen ss f =
     concat (map (\<lambda>typ.
       let files_of_type = sort (found recd f (date ss) (observatory ss) typ) in
       if typ = lbl_table \<and> \<not> falsy (map_of chosen f) then
         (case map_of chosen f of
            None \<Rightarrow> map (\<lambda>n. (n, typ)) files_of_type
          | Some ct \<Rightarrow>
              if ct \<in> set files_of_type
              then (ct, typ) # map (\<lambda>n. (n, typ)) (filter (\<lambda>x. x \<noteq> ct) files_of_type)
              else map (\<lambda>n. (n, typ)) files_of_type)
       else map (\<lambda>n. (n, typ)) files_of_type) order_types)"

text \<open>Lines 152 to 173.\<close>

definition display :: "scan_state \<Rightarrow> (string \<times> string) list \<Rightarrow> session \<Rightarrow> unit act" where
  "display st chosen ss =
     bind_io
       (for_io (filter_list ss) (\<lambda>f.
          let ordered = ordered_display (recognized st) chosen ss f in
          if ordered \<noteq> [] then emit (PrintRecognized f ordered) else ret ()))
       (\<lambda>_. if rejected st \<noteq> [] then emit (PrintRejected (rejected st)) else ret ())"

definition missing_by_flt :: "file_record list \<Rightarrow> session \<Rightarrow> string \<Rightarrow> string list" where
  "missing_by_flt recd ss f = missing required_keys_per_filter recd f (date ss) (observatory ss)"

definition missing_opt_by_flt :: "file_record list \<Rightarrow> session \<Rightarrow> string \<Rightarrow> string list" where
  "missing_opt_by_flt recd ss f = missing optional_keys recd f (date ss) (observatory ss)"

definition single_filter :: "session \<Rightarrow> bool" where
  "single_filter ss = (length (filter_list ss) = 1)"

text \<open>Lines 175 to 201.\<close>

definition completeness :: "scan_state \<Rightarrow> session \<Rightarrow> unit act" where
  "completeness st ss =
     bind_io
       (if \<not> single_filter ss then emit (PrintGlobal (length (global_notes st) = 1)) else ret ())
       (\<lambda>_.
     bind_io
       (for_io (filter_list ss) (\<lambda>f.
          emit (PrintOptional f (missing_opt_by_flt (recognized st) ss f))))
       (\<lambda>_.
       if list_ex (\<lambda>f. missing_by_flt (recognized st) ss f \<noteq> []) (filter_list ss) then
         bind_io
           (emit (PrintMissing
              (map (\<lambda>f. (f, missing_by_flt (recognized st) ss f))
                 (filter (\<lambda>f. missing_by_flt (recognized st) ss f \<noteq> []) (filter_list ss)))))
           (\<lambda>_.
         bind_io (input AskProceed) (\<lambda>ans.
           if lower (strip ans) \<noteq> ''y'' then err AbortedMissing else ret ()))
       else ret ()))"

section \<open>Building the submission entries\<close>

text \<open>Python's \<open>round\<close> of a float to an integer: halves go to the even neighbour.\<close>

definition py_round :: "real \<Rightarrow> int" where
  "py_round x =
     (let f = \<lfloor>x\<rfloor>; d = x - of_int f in
      if d < 1 / 2 then f
      else if d > 1 / 2 then f + 1
      else if even f then f else f + 1)"

text \<open>\<open>float(col[0]), float(col[-1])\<close>\<close>

definition first_last :: "column \<Rightarrow> exn + (real \<times> real)" where
  "first_last c =
     (if c = [] then Inl IndexError
      else (case cell_float (hd c) of
              Inl e \<Rightarrow> Inl e
            | Inr a \<Rightarrow> (case cell_float (last c) of Inl e \<Rightarrow> Inl e | Inr b \<Rightarrow> Inr (a, b))))"

text \<open>Lines 223 to 225.\<close>

definition exposures :: "table \<Rightarrow> exn + (real \<times> real)" where
  "exposures t =
     (case map_of t ''EXPTIME'' of
        Some c \<Rightarrow> first_last c
      | None \<Rightarrow>
          (case map_of t ''EXPOSURE'' of
             Some c \<Rightarrow> first_last c
           | None \<Rightarrow> Inr (0, 0)))"

definition obs_start :: "real \<Rightarrow> real \<Rightarrow> real" where
  "obs_start jd0 exp0 = jd0 - 0.5 * exp0 / 86400"

definition obs_end :: "real \<Rightarrow> real \<Rightarrow> real" where
  "obs_end jd1 exp1 = jd1 + 0.5 * exp1 / 86400"

definition duration_minutes :: "real \<Rightarrow> real \<Rightarrow> int" where
  "duration_minutes start end = py_round ((end - start) * 24 * 60)"

text \<open>
  Lines 222 to 230, after the table is read: \<open>None\<close> when the JD_UTC column is absent,
  otherwise the exception raised or the pair \<open>(obsdur, obsnum)\<close>.
\<close>

definition timing :: "table \<Rightarrow> (exn + (string \<times> string)) option" where
  "timing t =
     (case map_of t ''JD_UTC'' of
        None \<Rightarrow> None
      | Some jd \<Rightarrow>
          Some (case exposures t of
                  Inl e \<Rightarrow> Inl e
                | Inr (exp0, exp1) \<Rightarrow>
                    (case first_last jd of
                       Inl e \<Rightarrow> Inl e
                     | Inr (jd0, jd1) \<Rightarrow>
                         Inr (str_int (duration_minutes (obs_start jd0 exp0) (obs_end jd1 exp1)),
                              str_nat (len_table t)))))"

text \<open>Lines 232 to 245: the first plate-solved file with finite positive scales.\<close>

fun first_valid_wcs :: "(string \<Rightarrow> wcs) \<Rightarrow> string list \<Rightarrow> (string \<times> real list) option" where
  "first_valid_wcs rd [] = None"
| "first_valid_wcs rd (w # ws) =
     (case rd w of
        WcsFail \<Rightarrow> first_valid_wcs rd ws
      | Scales sc \<Rightarrow>
          if list_all scale_ok sc then Some (w, map scale_val sc) else first_valid_wcs rd ws)"

text \<open>
  Lines 248 to 258. \<open>ApBlank\<close>: an exception was caught before \<open>photaprad\<close> was set;
  \<open>ApNaN\<close>: the column is empty, the median is NaN and \<open>nanmax\<close> raised afterwards;
  \<open>ApMed m\<close>: the median.
\<close>

datatype aprad = ApBlank | ApNaN | ApMed real

definition var_advisory :: string where
  "var_advisory = ''aperture radius was variable in time''"

definition aperture :: "table \<Rightarrow> aprad \<times> string" where
  "aperture t =
     (case map_of t ''Source_Radius'' of
        None \<Rightarrow> (ApBlank, [])
      | Some c \<Rightarrow>
          (case float_array c of
             Inl e \<Rightarrow> (ApBlank, [])
           | Inr sr \<Rightarrow>
               if sr = [] then (ApNaN, [])
               else (ApMed (median sr), (if vspan sr > 0 then var_advisory else []))))"

fun photaprad_str :: "(real \<Rightarrow> string) \<Rightarrow> aprad \<Rightarrow> string" where
  "photaprad_str fmt ApBlank = []"
| "photaprad_str fmt ApNaN = ''nan''"
| "photaprad_str fmt (ApMed m) = fmt m"

text \<open>Lines 264 to 267 and 268 to 272: the prompts of a run with several filters.\<close>

fun psf_loop :: "(string \<Rightarrow> bool) \<Rightarrow> string \<Rightarrow> string list \<Rightarrow> event list \<Rightarrow> (outcome + string) \<times> io" where
  "psf_loop isf f [] o1 = (Inl (Raised EOFError), \<lparr>inp = [], out = o1 @ [Input (AskPsf f)]\<rparr>)"
| "psf_loop isf f (l # ls) o1 =
     (if isf (strip l) then (Inr (strip l), \<lparr>inp = ls, out = o1 @ [Input (AskPsf f)]\<rparr>)
      else psf_loop isf f ls (o1 @ [Input (AskPsf f), PrintNotNumeric]))"

definition ask_psf :: "(string \<Rightarrow> bool) \<Rightarrow> string \<Rightarrow> string act" where
  "ask_psf isf f s = psf_loop isf f (inp s) (out s)"

fun dm_loop :: "(string \<Rightarrow> bool) \<Rightarrow> string \<Rightarrow> string list \<Rightarrow> event list \<Rightarrow> (outcome + string) \<times> io" where
  "dm_loop isf f [] o1 = (Inl (Raised EOFError), \<lparr>inp = [], out = o1 @ [Input (AskDeltamag f)]\<rparr>)"
| "dm_loop isf f (l # ls) o1 =
     (if strip l = [] then (Inr [], \<lparr>inp = ls, out = o1 @ [Input (AskDeltamag f)]\<rparr>)
      else if isf (strip l) then (Inr (strip l), \<lparr>inp = ls, out = o1 @ [Input (AskDeltamag f)]\<rparr>)
      else dm_loop isf f ls (o1 @ [Input (AskDeltamag f), PrintNotNumeric]))"

definition ask_deltamag :: "(string \<Rightarrow> bool) \<Rightarrow> string \<Rightarrow> string act" where
  "ask_deltamag isf f s = dm_loop isf f (inp s) (out s)"

text \<open>Line 203.\<close>

definition cov_of :: "string \<Rightarrow> string" where
  "cov_of c =
     (case map_of [(''full'', ''Full''), (''ingress'', ''Ingress''), (''egress'', ''Egress''),
                   (''out of transit'', ''Out of Transit'')] (lower (strip c)) of
        None \<Rightarrow> ''Full''
      | Some v \<Rightarrow> v)"

text \<open>Line 204.\<close>

definition tag_of :: "session \<Rightarrow> args \<Rightarrow> ids \<Rightarrow> string" where
  "tag_of ss a i = date ss @ ''_'' @ username a @ ''_tic'' @ tic_num i @ ''_'' @ planet_tic i"

text \<open>
  Lines 206 to 210: the value of \<open>deltamag_single\<close> in a run with one filter, nothing
  in a run with several.
\<close>

definition single_args :: "session \<Rightarrow> args \<Rightarrow> string option act" where
  "single_args ss a =
     (if single_filter ss then
        if falsy (psf a) then err NoPsf
        else if falsy (deltamag a) then err NoDeltamag
        else ret (Some (if strip (str_of (deltamag a)) = ''0'' then [] else strip (str_of (deltamag a))))
      else ret None)"

text \<open>Lines 260 to 272.\<close>

definition psf_deltamag :: "env \<Rightarrow> args \<Rightarrow> string option \<Rightarrow> string \<Rightarrow> (string \<times> string) act" where
  "psf_deltamag ev a deltamag_single f =
     (case deltamag_single of
        Some dm \<Rightarrow> ret (strip (str_of (psf a)), dm)
      | None \<Rightarrow>
          bind_io (ask_psf (is_float ev) f) (\<lambda>psf_final.
          bind_io (ask_deltamag (is_float ev) f) (\<lambda>deltamag_final.
          ret (psf_final, deltamag_final))))"

text \<open>Lines 274 and 275.\<close>

definition notes_final :: "args \<Rightarrow> string \<Rightarrow> string" where
  "notes_final a var_note =
     (let n = strip (case notes_arg a of None \<Rightarrow> [] | Some v \<Rightarrow> v) in
      if var_note \<noteq> [] then (if n \<noteq> [] then n @ ''; '' @ var_note else var_note) else n)"

text \<open>Line 219.\<close>

definition chosen_for :: "(string \<times> string) list \<Rightarrow> string \<Rightarrow> string list \<Rightarrow> string" where
  "chosen_for chosen f meas_candidates =
     (case map_of chosen f of
        Some c \<Rightarrow> if c \<in> set meas_candidates then c else hd (sort meas_candidates)
      | None \<Rightarrow> hd (sort meas_candidates))"

text \<open>The body of the loop over the filters, lines 213 to 321.\<close>

definition build_filter ::
  "env \<Rightarrow> args \<Rightarrow> ids \<Rightarrow> scan_state \<Rightarrow> session \<Rightarrow> (string \<times> string) list \<Rightarrow> string option \<Rightarrow>
   string \<Rightarrow> entries act" where
  "build_filter ev a i st ss chosen deltamag_single f =
     (let fnd = found (recognized st) f (date ss) (observatory ss);
          meas_candidates = fnd lbl_table
      in
        if meas_candidates = [] then err (NoMeasTable f)
        else
          (case read_table ev (chosen_for chosen f meas_candidates) of
             None \<Rightarrow> raise_io ReaderError
           | Some t \<Rightarrow>
               (case timing t of
                  None \<Rightarrow> err (NoJD f)
                | Some (Inl e) \<Rightarrow> raise_io e
                | Some (Inr (obsdur, obsnum)) \<Rightarrow>
                    (case first_valid_wcs (read_wcs ev) (fnd lbl_wcs) of
                       None \<Rightarrow> err (NoWCS f)
                     | Some (wfn, scales) \<Rightarrow>
                         (case aperture t of (ap, var_note) \<Rightarrow>
                            bind_io (psf_deltamag ev a deltamag_single f) (\<lambda>(psf_final, deltamag_final).
                              let en = \<lparr>e_planet = toi_lbl_upload i,
                                        e_tel = observatory ss,
                                        e_telsize = telsize_str i,
                                        e_camera = camera_str i,
                                        e_filter = f,
                                        e_pixscale = fmt_pixscale ev scales,
                                        e_psf = psf_final,
                                        e_photaprad = photaprad_str (fmt_photaprad ev) ap,
                                        e_obsdate = take 4 (date ss) @ ''-'' @ take 2 (drop 4 (date ss))
                                                    @ ''-'' @ drop 6 (date ss),
                                        e_obsdur = obsdur,
                                        e_obsnum = obsnum,
                                        e_obstype = ''Continuous'',
                                        e_transcov = cov_of (coverage_str i),
                                        e_deltamag = deltamag_final,
                                        e_tag = tag_of ss a i,
                                        e_groupname = groupname a,
                                        e_notes = notes_final a var_note,
                                        e_id = tic_num i\<rparr>
                              in
                                if ap = ApNaN then raise_io ValueError
                                else bind_io (emit (PrintSummary f en)) (\<lambda>_. ret en)))))))"

text \<open>The loop itself: \<open>entries_by_flt\<close> as an association list in the order of the filters.\<close>

fun build_all ::
  "env \<Rightarrow> args \<Rightarrow> ids \<Rightarrow> scan_state \<Rightarrow> session \<Rightarrow> (string \<times> string) list \<Rightarrow> string option \<Rightarrow>
   string list \<Rightarrow> (string \<times> entries) list act" where
  "build_all ev a i st ss chosen dms [] = ret []"
| "build_all ev a i st ss chosen dms (f # fs) =
     bind_io (build_filter ev a i st ss chosen dms f) (\<lambda>en.
     bind_io (build_all ev a i st ss chosen dms fs) (\<lambda>rest.
     ret ((f, en) # rest)))"

section \<open>The run\<close>

record prepared =
  p_ids :: ids
  p_scan :: scan_state
  p_session :: session
  p_chosen :: "(string \<times> string) list"
  p_entries :: "(string \<times> entries) list"

text \<open>Lines 23 to 321: everything before the uploads.\<close>

definition prepare :: "env \<Rightarrow> args \<Rightarrow> prepared act" where
  "prepare ev a =
     bind_io (check_args ev a) (\<lambda>i.
     bind_io (do_login ev a) (\<lambda>_.
     bind_io (list_files ev) (\<lambda>files.
     bind_io (consistency i (scan (tgt_prefix i) files)) (\<lambda>ss.
       (case select_tables (read_table ev) (recognized (scan (tgt_prefix i) files)) (filter_list ss) of
          Inl e \<Rightarrow> raise_io e
        | Inr chosen \<Rightarrow>
            bind_io (display (scan (tgt_prefix i) files) chosen ss) (\<lambda>_.
            bind_io (completeness (scan (tgt_prefix i) files) ss) (\<lambda>_.
            bind_io (single_args ss a) (\<lambda>dms.
            bind_io (build_all ev a i (scan (tgt_prefix i) files) ss chosen dms (filter_list ss)) (\<lambda>ens.
            ret \<lparr>p_ids = i, p_scan = scan (tgt_prefix i) files, p_session = ss,
                 p_chosen = chosen, p_entries = ens\<rparr>)))))))))"

text \<open>Lines 337 to 346: the files of one filter in upload order.\<close>

definition upload_order ::
  "file_record list \<Rightarrow> (string \<times> string) list \<Rightarrow> session \<Rightarrow> string \<Rightarrow> (string \<times> string) list" where
  "upload_order recd chosen ss f =
     (let meas_candidates = sort (found recd f (date ss) (observatory ss) lbl_table) in
      (case map_of chosen f of
         None \<Rightarrow> map (\<lambda>n. (n, lbl_table)) meas_candidates
       | Some ct \<Rightarrow>
           if ct \<noteq> [] \<and> ct \<in> set meas_candidates
           then (ct, lbl_table) # map (\<lambda>n. (n, lbl_table)) (filter (\<lambda>x. x \<noteq> ct) meas_candidates)
           else map (\<lambda>n. (n, lbl_table)) meas_candidates)
      @ concat (map (\<lambda>typ. map (\<lambda>n. (n, typ)) (sort (found recd f (date ss) (observatory ss) typ)))
                  (tl order_types)))"

text \<open>The body of the loop over the filters, lines 331 to 350.\<close>

definition submit_filter :: "env \<Rightarrow> args \<Rightarrow> prepared \<Rightarrow> string \<Rightarrow> unit act" where
  "submit_filter ev a pr f =
     (case map_of (p_entries pr) f of
        None \<Rightarrow> raise_io KeyError
      | Some en \<Rightarrow>
          bind_io
            (if \<not> skip_summary a
             then bind_io (emit (PostTseries en)) (\<lambda>_. check_post (post_tseries ev f) (TseriesFailed f))
             else ret ())
            (\<lambda>_.
               if \<not> skip_files a
               then for_io (upload_order (recognized (p_scan pr)) (p_chosen pr) (p_session pr) f)
                      (\<lambda>(n, d). bind_io (emit (PostFile n d en)) (\<lambda>_.
                                 check_post (post_file ev n) (UploadFailed n)))
               else ret ()))"

text \<open>Lines 323 to 351.\<close>

definition submit :: "env \<Rightarrow> args \<Rightarrow> prepared \<Rightarrow> unit act" where
  "submit ev a pr =
     (if skip_summary a \<and> skip_files a then emit PrintDisabled
      else
        bind_io (input AskSubmit) (\<lambda>ans.
          if lower (strip ans) = ''n'' then err UserCancelled
          else
            bind_io (for_io (filter_list (p_session pr)) (submit_filter ev a pr)) (\<lambda>_.
            emit PrintCompleted)))"

definition io_init :: "env \<Rightarrow> io" where
  "io_init ev = \<lparr>inp = stdin ev, out = []\<rparr>"

text \<open>
  The call of \<open>upload\<close> from the command line: how it ends, and what it did on the way.
\<close>

definition upload :: "env \<Rightarrow> args \<Rightarrow> outcome \<times> event list" where
  "upload ev a =
     (case bind_io (prepare ev a) (submit ev a) (io_init ev) of
        (Inl e, s) \<Rightarrow> (e, out s)
      | (Inr u, s) \<Rightarrow> (Returned, out s))"

section \<open>A concrete observation set\<close>

text \<open>
  One directory used to run the model: a measurement table, a plate-solved image and the
  notes of target TIC 12345678.01, taken on 20230115 at ObsA in filter V.
\<close>

definition tblfile :: string where
  "tblfile = ''TIC12345678-01_20230115_ObsA_V_measurements.tbl''"

definition wcsfile :: string where
  "wcsfile = ''TIC12345678-01_20230115_ObsA_V_WCS.fits''"

definition notesfile :: string where
  "notesfile = ''TIC12345678-01_20230115_ObsA_V_notes.txt''"

definition tbl_ok :: table where
  "tbl_ok = [(''JD_UTC'', [Num 2459000.5, Num 2459000.51]),
             (''EXPTIME'', [Num 60, Num 60]),
             (''Source_Radius'', [Num 9, Num 9])]"

definition tbl_norad :: table where
  "tbl_norad = [(''JD_UTC'', [Num 2459000.5, Num 2459000.51]),
                (''EXPTIME'', [Num 60, Num 60])]"

definition env_ok :: env where
  "env_ok = \<lparr>isdir = True,
             listing = [wcsfile, tblfile, notesfile],
             login = Status 200,
             read_table = (\<lambda>n. if n = tblfile then Some tbl_ok else None),
             read_wcs = (\<lambda>n. if n = wcsfile then Scales [Fin 0.5, Fin 0.5] else WcsFail),
             stdin = [''y'', []],
             is_float = (\<lambda>s. False),
             fmt_pixscale = (\<lambda>sc. ''0.5''),
             fmt_photaprad = (\<lambda>m. ''9.0''),
             post_tseries = (\<lambda>f. Status 200),
             post_file = (\<lambda>n. Status 200)\<rparr>"

definition args_ok :: args where
  "args_ok = \<lparr>username = ''observer'', password = ''secret'', tic = ''12345678.01'', toi = ''0'',
              directory = ''data'', groupname = ''tfopwg'', coverage = Some ''Full'',
              telsize = Some ''0.4'', camera = Some ''CCD'', psf = Some ''3.41'',
              deltamag = Some ''0'', notes_arg = None, skip_summary = False, skip_files = False\<rparr>"

definition scan_ok :: scan_state where
  "scan_ok = scan ''TIC12345678-01'' (sort (listing env_ok))"

definition session_ok :: session where
  "session_ok = \<lparr>date = ''20230115'', observatory = ''ObsA'', filter_list = [''V'']\<rparr>"

definition args_skip :: args where
  "args_skip = args_ok\<lparr>skip_summary := True, skip_files := True\<rparr>"

definition env_cancel :: env where
  "env_cancel = env_ok\<lparr>stdin := [''y'', ''n'']\<rparr>"

definition env_norad :: env where
  "env_norad = env_ok\<lparr>read_table := (\<lambda>n. if n = tblfile then Some tbl_norad else None)\<rparr>"

definition env_unreadable :: env where
  "env_unreadable = env_ok\<lparr>read_table := (\<lambda>n. None)\<rparr>"

definition args_bad :: args where
  "args_bad = args_ok\<lparr>psf := Some ''abc'', deltamag := Some ''xyz''\<rparr>"

definition env_decline :: env where
  "env_decline = env_ok\<lparr>stdin := [''n'']\<rparr>"

section \<open>Reading a trace\<close>

text \<open>The prompts shown during a run, in order.\<close>

fun prompts_of :: "event list \<Rightarrow> prompt list" where
  "prompts_of [] = []"
| "prompts_of (Input p # es) = p # prompts_of es"
| "prompts_of (e # es) = prompts_of es"

text \<open>The entries submitted during a run, in order.\<close>

fun submitted :: "event list \<Rightarrow> entries list" where
  "submitted [] = []"
| "submitted (PostTseries en # es) = en # submitted es"
| "submitted (e # es) = submitted es"

text \<open>
  The events of the upload stage: the submit prompt, a time-series submission, a file
  upload.
\<close>

fun upload_event :: "event \<Rightarrow> bool" where
  "upload_event (Input AskSubmit) = True"
| "upload_event (PostTseries en) = True"
| "upload_event (PostFile n d en) = True"
| "upload_event e = False"

text \<open>What the completeness stage prints before it lists the missing required files.\<close>

definition pre_events :: "scan_state \<Rightarrow> session \<Rightarrow> event list" where
  "pre_events st ss =
     (if \<not> single_filter ss then [PrintGlobal (length (global_notes st) = 1)] else [])
     @ map (\<lambda>f. PrintOptional f (missing_opt_by_flt (recognized st) ss f)) (filter_list ss)"

text \<open>
  Two properties of an action, whatever the state it starts from: it only appends events
  that satisfy \<open>P\<close>; and it never ends the run by returning, while an exit it makes has
  status 1 and comes right after the message and the bell of \<open>_err\<close>.
\<close>

definition emits :: "(event \<Rightarrow> bool) \<Rightarrow> 'a act \<Rightarrow> bool" where
  "emits P m = (\<forall>s. \<exists>evs. out (snd (m s)) = out s @ evs \<and> list_all P evs)"

fun exit_ok :: "(outcome + 'a) \<times> io \<Rightarrow> bool" where
  "exit_ok (Inl Returned, s) = False"
| "exit_ok (Inl (SysExit n), s) = (n = 1 \<and> (\<exists>pre m. out s = pre @ [PrintErr m, Bell]))"
| "exit_ok (Inl (Raised e), s) = True"
| "exit_ok (Inr x, s) = True"

definition exits_ok :: "'a act \<Rightarrow> bool" where
  "exits_ok m = (\<forall>s. exit_ok (m s))"

section \<open>Lemmas on the model\<close>






lemma first_label_Some:
  "first_label ps tail = Some d \<Longrightarrow>
     \<exists>k<length ps. fullmatch (fst (ps ! k)) tail \<and> d = snd (ps ! k) \<and>
        (\<forall>j<k. \<not> fullmatch (fst (ps ! j)) tail)"
proof (induction ps)
  case Nil
  then show ?case by simp
next
  case (Cons q ps)
  obtain pat lab where q: "q = (pat, lab)" by (cases q)
  show ?case
  proof (cases "fullmatch pat tail")
    case True
    with Cons.prems q have "d = lab" by simp
    with True q show ?thesis by (intro exI[of _ 0]) simp
  next
    case False
    with Cons.prems q have "first_label ps tail = Some d" by simp
    from Cons.IH[OF this] obtain k where k: "k < length ps" "fullmatch (fst (ps ! k)) tail"
      "d = snd (ps ! k)" "\<forall>j<k. \<not> fullmatch (fst (ps ! j)) tail" by blast
    have "\<forall>j<Suc k. \<not> fullmatch (fst ((q # ps) ! j)) tail"
      using k(4) False q by (auto simp: less_Suc_eq_0_disj)
    with k show ?thesis by (intro exI[of _ "Suc k"]) simp
  qed
qed

lemma classify_Inl:
  "classify p name = Inl rj \<Longrightarrow>
     fst rj = name \<and>
     snd rj \<in> {''Name does not match pattern'', ''TIC/planet mismatch'', ''Unrecognized filetype token''}"
  by (auto simp: classify_def split: option.splits if_splits)

lemma classify_Inr:
  "classify p name = Inr r \<Longrightarrow>
     fn r = name \<and> (\<exists>m. base_match name = Some m \<and> g_tgt m @ ''-'' @ g_pp m = p \<and>
        first_label allowed_specs (g_tail m) = Some (desc r) \<and>
        ymd r = g_ymd m \<and> obs r = g_obs m \<and> flt r = g_flt m)"
  by (auto simp: classify_def split: option.splits if_splits)

lemma scan_fold:
  "map fn (recognized (foldl (scan_step p) st files)) =
     map fn (recognized st) @ filter (\<lambda>n. \<not> isl (classify p n)) files \<and>
   map fst (rejected (foldl (scan_step p) st files)) =
     map fst (rejected st) @ filter (\<lambda>n. isl (classify p n)) files"
proof (induction files arbitrary: st)
  case Nil
  then show ?case by simp
next
  case (Cons n files)
  show ?case
  proof (cases "classify p n")
    case (Inl rj)
    then show ?thesis
      using Cons.IH[of "scan_step p st n"] classify_Inl[OF Inl]
      by (simp add: scan_step_def)
  next
    case (Inr r)
    then show ?thesis
      using Cons.IH[of "scan_step p st n"] classify_Inr[OF Inr]
      by (simp add: scan_step_def)
  qed
qed


lemma build_filter_Inr:
  assumes "build_filter ev a i st ss chosen dms f s = (Inr en, s')"
  shows "\<exists>t d n w sc p dm s1.
           found (recognized st) f (date ss) (observatory ss) lbl_table \<noteq> [] \<and>
           read_table ev (chosen_for chosen f
             (found (recognized st) f (date ss) (observatory ss) lbl_table)) = Some t \<and>
           timing t = Some (Inr (d, n)) \<and>
           first_valid_wcs (read_wcs ev)
             (found (recognized st) f (date ss) (observatory ss) lbl_wcs) = Some (w, sc) \<and>
           psf_deltamag ev a dms f s = (Inr (p, dm), s1) \<and>
           fst (aperture t) \<noteq> ApNaN \<and>
           s' = s1\<lparr>out := out s1 @ [PrintSummary f en]\<rparr> \<and>
           e_obsdur en = d \<and> e_obsnum en = n \<and> e_filter en = f \<and> e_psf en = p \<and>
           e_deltamag en = dm \<and>
           e_photaprad en = photaprad_str (fmt_photaprad ev) (fst (aperture t)) \<and>
           e_notes en = notes_final a (snd (aperture t)) \<and>
           e_pixscale en = fmt_pixscale ev sc"
  using assms
  unfolding build_filter_def Let_def
  by (auto simp: bind_io_def err_def raise_io_def emit_def ret_def
      split: if_splits option.splits sum.splits prod.splits)

section \<open>The claims\<close>






lemma prompts_of_append: "prompts_of (xs @ ys) = prompts_of xs @ prompts_of ys"
  by (induction xs rule: prompts_of.induct) simp_all

lemma for_io_emit:
  "for_io xs (\<lambda>f. emit (g f)) s = (Inr (), s\<lparr>out := out s @ map g xs\<rparr>)"
  by (induction xs arbitrary: s) (simp_all add: ret_def bind_io_def emit_def)

lemma prompts_of_optional:
  "prompts_of (map (\<lambda>f. PrintOptional f (h f)) xs) = []"
  by (induction xs) simp_all

lemma found_empty_iff:
  "found recd f d ob k = [] \<longleftrightarrow> \<not> (\<exists>x\<in>set recd. flt x = f \<and> ymd x = d \<and> obs x = ob \<and> desc x = k)"
  by (auto simp: found_def filter_empty_conv)

lemma set_missing:
  "set (missing keys recd f d ob) =
     {k \<in> set keys. \<not> (\<exists>x\<in>set recd. flt x = f \<and> ymd x = d \<and> obs x = ob \<and> desc x = k)}"
  by (simp add: missing_def found_empty_iff)

lemma missing_example:
  assumes "X \<noteq> Y" and "X \<noteq> Z"
    and "{desc x | x. x \<in> set recd \<and> flt x = f \<and> ymd x = d \<and> obs x = ob} = {X}"
  shows "missing [X, Y, Z] recd f d ob = [Y, Z]"
proof -
  have k: "\<And>k. found recd f d ob k = [] \<longleftrightarrow> k \<noteq> X"
  proof -
    fix k
    have "(\<exists>x\<in>set recd. flt x = f \<and> ymd x = d \<and> obs x = ob \<and> desc x = k) \<longleftrightarrow>
          k \<in> {desc x | x. x \<in> set recd \<and> flt x = f \<and> ymd x = d \<and> obs x = ob}"
      by auto
    then show "found recd f d ob k = [] \<longleftrightarrow> k \<noteq> X"
      by (simp add: found_empty_iff assms(3))
  qed
  show ?thesis
    using assms(1,2) by (simp add: missing_def k)
qed

lemma completeness_eq:
  "completeness st ss s =
     (if list_ex (\<lambda>f. missing_by_flt (recognized st) ss f \<noteq> []) (filter_list ss) then
        (case inp s of
           [] \<Rightarrow> (Inl (Raised EOFError),
                  s\<lparr>out := out s @ pre_events st ss @
                     [PrintMissing (map (\<lambda>f. (f, missing_by_flt (recognized st) ss f))
                        (filter (\<lambda>f. missing_by_flt (recognized st) ss f \<noteq> []) (filter_list ss))),
                      Input AskProceed]\<rparr>)
         | l # ls \<Rightarrow>
             if lower (strip l) = ''y''
             then (Inr (),
                  s\<lparr>inp := ls, out := out s @ pre_events st ss @
                     [PrintMissing (map (\<lambda>f. (f, missing_by_flt (recognized st) ss f))
                        (filter (\<lambda>f. missing_by_flt (recognized st) ss f \<noteq> []) (filter_list ss))),
                      Input AskProceed]\<rparr>)
             else (Inl (SysExit 1),
                  s\<lparr>inp := ls, out := out s @ pre_events st ss @
                     [PrintMissing (map (\<lambda>f. (f, missing_by_flt (recognized st) ss f))
                        (filter (\<lambda>f. missing_by_flt (recognized st) ss f \<noteq> []) (filter_list ss))),
                      Input AskProceed, PrintErr AbortedMissing, Bell]\<rparr>))
      else (Inr (), s\<lparr>out := out s @ pre_events st ss\<rparr>))"
  by (cases "inp s")
     (simp_all add: completeness_def bind_io_def emit_def ret_def for_io_emit input_def err_def
        pre_events_def)

lemma emits_ret: "emits P (ret x)"
  by (simp add: emits_def ret_def)

lemma emits_raise: "emits P (raise_io e)"
  by (simp add: emits_def raise_io_def)

lemma emits_emit: "P e \<Longrightarrow> emits P (emit e)"
  by (simp add: emits_def emit_def)

lemma emits_err: "P (PrintErr m) \<Longrightarrow> P Bell \<Longrightarrow> emits P (err m)"
  by (simp add: emits_def err_def)

lemma emits_input: "P (Input p) \<Longrightarrow> emits P (input p)"
  by (auto simp: emits_def input_def split: list.splits)

lemma emits_bind:
  assumes "emits P m" and "\<And>x. emits P (f x)"
  shows "emits P (bind_io m f)"
  unfolding emits_def
proof
  fix s
  obtain r s1 where ms: "m s = (r, s1)" by (cases "m s")
  from assms(1) obtain e1 where e1: "out s1 = out s @ e1" "list_all P e1"
    unfolding emits_def using ms by (metis snd_conv)
  show "\<exists>evs. out (snd (bind_io m f s)) = out s @ evs \<and> list_all P evs"
  proof (cases r)
    case (Inl e)
    then show ?thesis using ms e1 by (simp add: bind_io_def)
  next
    case (Inr x)
    from assms(2)[of x] obtain e2 where e2: "out (snd (f x s1)) = out s1 @ e2" "list_all P e2"
      unfolding emits_def by blast
    then have "out (snd (bind_io m f s)) = out s @ (e1 @ e2) \<and> list_all P (e1 @ e2)"
      using ms Inr e1 by (simp add: bind_io_def)
    then show ?thesis by blast
  qed
qed

lemma emits_check_post: "P (PrintErr m) \<Longrightarrow> P Bell \<Longrightarrow> emits P (check_post h m)"
  by (cases h) (simp_all add: emits_raise emits_err emits_ret)

lemma emits_for_io: "(\<And>x. emits P (body x)) \<Longrightarrow> emits P (for_io xs body)"
  by (induction xs) (simp_all add: emits_ret emits_bind)

lemma psf_loop_out:
  "P (Input (AskPsf f)) \<Longrightarrow> P PrintNotNumeric \<Longrightarrow>
     \<exists>evs. out (snd (psf_loop isf f ls o1)) = o1 @ evs \<and> list_all P evs"
proof (induction ls arbitrary: o1)
  case Nil
  then show ?case by simp
next
  case (Cons l ls)
  show ?case
  proof (cases "isf (strip l)")
    case True
    then show ?thesis using Cons.prems by simp
  next
    case False
    from Cons.IH[OF Cons.prems, of "o1 @ [Input (AskPsf f), PrintNotNumeric]"]
    obtain evs where "out (snd (psf_loop isf f ls (o1 @ [Input (AskPsf f), PrintNotNumeric]))) =
        (o1 @ [Input (AskPsf f), PrintNotNumeric]) @ evs" "list_all P evs" by blast
    then have "out (snd (psf_loop isf f (l # ls) o1)) = o1 @ ([Input (AskPsf f), PrintNotNumeric] @ evs)
        \<and> list_all P ([Input (AskPsf f), PrintNotNumeric] @ evs)"
      using False Cons.prems by simp
    then show ?thesis by blast
  qed
qed

lemma dm_loop_out:
  "P (Input (AskDeltamag f)) \<Longrightarrow> P PrintNotNumeric \<Longrightarrow>
     \<exists>evs. out (snd (dm_loop isf f ls o1)) = o1 @ evs \<and> list_all P evs"
proof (induction ls arbitrary: o1)
  case Nil
  then show ?case by simp
next
  case (Cons l ls)
  show ?case
  proof (cases "strip l = [] \<or> isf (strip l)")
    case True
    then show ?thesis using Cons.prems by auto
  next
    case False
    from Cons.IH[OF Cons.prems, of "o1 @ [Input (AskDeltamag f), PrintNotNumeric]"]
    obtain evs where "out (snd (dm_loop isf f ls (o1 @ [Input (AskDeltamag f), PrintNotNumeric]))) =
        (o1 @ [Input (AskDeltamag f), PrintNotNumeric]) @ evs" "list_all P evs" by blast
    then have "out (snd (dm_loop isf f (l # ls) o1)) = o1 @ ([Input (AskDeltamag f), PrintNotNumeric] @ evs)
        \<and> list_all P ([Input (AskDeltamag f), PrintNotNumeric] @ evs)"
      using False Cons.prems by simp
    then show ?thesis by blast
  qed
qed

lemma emits_ask_psf: "P (Input (AskPsf f)) \<Longrightarrow> P PrintNotNumeric \<Longrightarrow> emits P (ask_psf isf f)"
  unfolding emits_def ask_psf_def using psf_loop_out[of P f] by blast

lemma emits_ask_deltamag:
  "P (Input (AskDeltamag f)) \<Longrightarrow> P PrintNotNumeric \<Longrightarrow> emits P (ask_deltamag isf f)"
  unfolding emits_def ask_deltamag_def using dm_loop_out[of P f] by blast

lemma exits_ret: "exits_ok (ret x)"
  by (simp add: exits_ok_def ret_def)

lemma exits_raise: "exits_ok (raise_io e)"
  by (simp add: exits_ok_def raise_io_def)

lemma exits_emit: "exits_ok (emit e)"
  by (simp add: exits_ok_def emit_def)

lemma exits_err: "exits_ok (err m)"
  by (simp add: exits_ok_def err_def)

lemma exits_input: "exits_ok (input p)"
  by (simp add: exits_ok_def input_def split: list.splits)

lemma exit_ok_Inl:
  "exit_ok (Inl e, s) =
     (case e of Returned \<Rightarrow> False
      | SysExit n \<Rightarrow> n = 1 \<and> (\<exists>pre m. out s = pre @ [PrintErr m, Bell])
      | Raised x \<Rightarrow> True)"
  by (cases e) simp_all

lemma exits_bind:
  assumes "exits_ok m" and "\<And>x. exits_ok (f x)"
  shows "exits_ok (bind_io m f)"
  unfolding exits_ok_def
proof
  fix s
  obtain r s1 where ms: "m s = (r, s1)" by (cases "m s")
  show "exit_ok (bind_io m f s)"
  proof (cases r)
    case (Inl e)
    have "exit_ok (m s)" using assms(1) by (simp add: exits_ok_def)
    then show ?thesis using ms Inl by (simp add: bind_io_def exit_ok_Inl)
  next
    case (Inr x)
    have "exit_ok (f x s1)" using assms(2)[of x] by (simp add: exits_ok_def)
    then show ?thesis using ms Inr by (simp add: bind_io_def)
  qed
qed

lemma exits_check_post: "exits_ok (check_post h m)"
  by (cases h) (simp_all add: exits_raise exits_err exits_ret)

lemma exits_for_io: "(\<And>x. exits_ok (body x)) \<Longrightarrow> exits_ok (for_io xs body)"
  by (induction xs) (simp_all add: exits_ret exits_bind)

lemma psf_loop_exit: "exit_ok (psf_loop isf f ls o1)"
  by (induction ls arbitrary: o1) simp_all

lemma dm_loop_exit: "exit_ok (dm_loop isf f ls o1)"
  by (induction ls arbitrary: o1) simp_all

lemma exits_ask_psf: "exits_ok (ask_psf isf f)"
  by (simp add: exits_ok_def ask_psf_def psf_loop_exit)

lemma exits_ask_deltamag: "exits_ok (ask_deltamag isf f)"
  by (simp add: exits_ok_def ask_deltamag_def dm_loop_exit)

lemmas emits_intros =
  emits_bind emits_ret emits_raise emits_emit emits_err emits_input emits_check_post
  emits_for_io emits_ask_psf emits_ask_deltamag

lemmas exits_intros =
  exits_bind exits_ret exits_raise exits_emit exits_err exits_input exits_check_post
  exits_for_io exits_ask_psf exits_ask_deltamag

lemma emits_check_args: "emits (\<lambda>e. \<not> upload_event e) (check_args ev a)"
  unfolding check_args_def Let_def
  by (intro emits_bind emits_emit) (auto intro!: emits_intros split: option.splits)

lemma emits_do_login: "emits (\<lambda>e. \<not> upload_event e) (do_login ev a)"
  unfolding do_login_def by (intro emits_intros) simp_all

lemma emits_list_files: "emits (\<lambda>e. \<not> upload_event e) (list_files ev)"
  unfolding list_files_def Let_def by (auto intro!: emits_intros split: option.splits)

lemma emits_consistency: "emits (\<lambda>e. \<not> upload_event e) (consistency i st)"
  unfolding consistency_def Let_def by (auto intro!: emits_intros)

lemma emits_display: "emits (\<lambda>e. \<not> upload_event e) (display st chosen ss)"
  unfolding display_def Let_def by (auto intro!: emits_intros)

lemma emits_completeness: "emits (\<lambda>e. \<not> upload_event e) (completeness st ss)"
  unfolding completeness_def by (auto intro!: emits_intros)

lemma emits_single_args: "emits (\<lambda>e. \<not> upload_event e) (single_args ss a)"
  unfolding single_args_def by (auto intro!: emits_intros)

lemma emits_psf_deltamag: "emits (\<lambda>e. \<not> upload_event e) (psf_deltamag ev a dms f)"
  unfolding psf_deltamag_def by (auto intro!: emits_intros split: option.splits)

lemma emits_build_filter: "emits (\<lambda>e. \<not> upload_event e) (build_filter ev a i st ss chosen dms f)"
  unfolding build_filter_def Let_def
  by (auto intro!: emits_intros emits_psf_deltamag split: option.splits sum.splits prod.splits)

lemma emits_build_all: "emits (\<lambda>e. \<not> upload_event e) (build_all ev a i st ss chosen dms fs)"
  by (induction fs) (auto intro!: emits_intros emits_build_filter)

lemma emits_prepare: "emits (\<lambda>e. \<not> upload_event e) (prepare ev a)"
  unfolding prepare_def
  by (intro emits_bind emits_check_args emits_do_login emits_list_files emits_consistency)
     (auto intro!: emits_bind emits_ret emits_raise emits_display emits_completeness emits_single_args
        emits_build_all split: sum.splits)

lemma exits_check_args: "exits_ok (check_args ev a)"
  unfolding check_args_def Let_def
  by (intro exits_bind exits_emit) (auto intro!: exits_intros split: option.splits)

lemma exits_do_login: "exits_ok (do_login ev a)"
  unfolding do_login_def by (intro exits_intros)

lemma exits_list_files: "exits_ok (list_files ev)"
  unfolding list_files_def Let_def by (auto intro!: exits_intros split: option.splits)

lemma exits_consistency: "exits_ok (consistency i st)"
  unfolding consistency_def Let_def by (auto intro!: exits_intros)

lemma exits_display: "exits_ok (display st chosen ss)"
  unfolding display_def Let_def by (auto intro!: exits_intros)

lemma exits_completeness: "exits_ok (completeness st ss)"
  unfolding completeness_def by (auto intro!: exits_intros)

lemma exits_single_args: "exits_ok (single_args ss a)"
  unfolding single_args_def by (auto intro!: exits_intros)

lemma exits_psf_deltamag: "exits_ok (psf_deltamag ev a dms f)"
  unfolding psf_deltamag_def by (auto intro!: exits_intros split: option.splits)

lemma exits_build_filter: "exits_ok (build_filter ev a i st ss chosen dms f)"
  unfolding build_filter_def Let_def
  by (auto intro!: exits_intros exits_psf_deltamag split: option.splits sum.splits prod.splits)

lemma exits_build_all: "exits_ok (build_all ev a i st ss chosen dms fs)"
  by (induction fs) (auto intro!: exits_intros exits_build_filter)

lemma exits_prepare: "exits_ok (prepare ev a)"
  unfolding prepare_def
  by (intro exits_bind exits_check_args exits_do_login exits_list_files exits_consistency)
     (auto intro!: exits_bind exits_ret exits_raise exits_display exits_completeness exits_single_args
        exits_build_all split: sum.splits)

lemma exits_submit_filter: "exits_ok (submit_filter ev a pr f)"
  unfolding submit_filter_def
  by (auto intro!: exits_intros split: option.splits prod.splits)

lemma exits_submit: "exits_ok (submit ev a pr)"
  unfolding submit_def by (auto intro!: exits_intros exits_submit_filter)

lemma bind_io_Inr:
  "bind_io m f s = (Inr y, s') \<Longrightarrow> \<exists>x s1. m s = (Inr x, s1) \<and> f x s1 = (Inr y, s')"
  by (auto simp: bind_io_def split: prod.splits sum.splits)

lemma emits_out:
  "emits P m \<Longrightarrow> m s = (r, s') \<Longrightarrow> \<exists>evs. out s' = out s @ evs \<and> list_all P evs"
  unfolding emits_def by (metis snd_conv)

lemma build_all_summaries:
  "build_all ev a i st ss chosen dms fs s = (Inr ens, s') \<Longrightarrow>
     map fst ens = fs \<and> (\<forall>f\<in>set fs. \<exists>en. PrintSummary f en \<in> set (out s')) \<and>
     (\<forall>p\<in>set ens. e_filter (snd p) = fst p)"
proof (induction fs arbitrary: s ens)
  case Nil
  then show ?case by (simp add: ret_def)
next
  case (Cons f fs)
  from Cons.prems have "bind_io (build_filter ev a i st ss chosen dms f) (\<lambda>en.
     bind_io (build_all ev a i st ss chosen dms fs) (\<lambda>rest.
     ret ((f, en) # rest))) s = (Inr ens, s')" by simp
  from bind_io_Inr[OF this] obtain en s1 where bf: "build_filter ev a i st ss chosen dms f s = (Inr en, s1)"
    and r1: "bind_io (build_all ev a i st ss chosen dms fs) (\<lambda>rest. ret ((f, en) # rest)) s1 = (Inr ens, s')"
    by blast
  from bind_io_Inr[OF r1] obtain rest s2 where ba0: "build_all ev a i st ss chosen dms fs s1 = (Inr rest, s2)"
    and r2: "ret ((f, en) # rest) s2 = (Inr ens, s')"
    by blast
  from r2 have ens: "ens = (f, en) # rest" and "s2 = s'" by (simp_all add: ret_def)
  with ba0 have ba: "build_all ev a i st ss chosen dms fs s1 = (Inr rest, s')" by simp
  from build_filter_Inr[OF bf] have s1: "PrintSummary f en \<in> set (out s1)" and ef: "e_filter en = f"
    by auto
  from emits_out[OF emits_build_all ba] s1 have "PrintSummary f en \<in> set (out s')"
    by auto
  with Cons.IH[OF ba] ens ef show ?case by auto
qed

lemma prepare_Inr:
  "prepare ev a s = (Inr pr, s') \<Longrightarrow>
     \<exists>i st chosen dms s1. build_all ev a i st (p_session pr) chosen dms
        (filter_list (p_session pr)) s1 = (Inr (p_entries pr), s')"
  unfolding prepare_def
  apply (auto dest!: bind_io_Inr simp: ret_def raise_io_def split: sum.splits)
  apply blast
  done

lemma submit_skip:
  "skip_summary a \<Longrightarrow> skip_files a \<Longrightarrow> submit ev a pr s = (Inr (), s\<lparr>out := out s @ [PrintDisabled]\<rparr>)"
  by (simp add: submit_def emit_def)

lemma submit_cancel:
  "\<not> (skip_summary a \<and> skip_files a) \<Longrightarrow> inp s = l # ls \<Longrightarrow> lower (strip l) = ''n'' \<Longrightarrow>
     submit ev a pr s =
       (Inl (SysExit 1), s\<lparr>inp := ls, out := out s @ [Input AskSubmit, PrintErr UserCancelled, Bell]\<rparr>)"
  by (auto simp: submit_def bind_io_def input_def err_def)

lemma submit_Inr:
  "submit ev a pr s = (Inr u, s') \<Longrightarrow>
     \<exists>pre. out s' = pre @ [PrintCompleted] \<or> out s' = pre @ [PrintDisabled]"
  unfolding submit_def
  by (auto dest!: bind_io_Inr simp: emit_def err_def split: if_splits)

lemma upload_cases:
  "(\<exists>e s. prepare ev a (io_init ev) = (Inl e, s) \<and> upload ev a = (e, out s)) \<or>
   (\<exists>pr s e s'. prepare ev a (io_init ev) = (Inr pr, s) \<and> submit ev a pr s = (Inl e, s') \<and>
      upload ev a = (e, out s')) \<or>
   (\<exists>pr s u s'. prepare ev a (io_init ev) = (Inr pr, s) \<and> submit ev a pr s = (Inr u, s') \<and>
      upload ev a = (Returned, out s'))"
  by (auto simp: upload_def bind_io_def split: prod.splits sum.splits)

lemma exit_ok_prepare: "exit_ok (prepare ev a s)"
  using exits_prepare by (simp add: exits_ok_def)

lemma exit_ok_submit: "exit_ok (submit ev a pr s)"
  using exits_submit by (simp add: exits_ok_def)

lemma upload_SysExit:
  assumes "fst (upload ev a) = SysExit n"
  shows "n = 1 \<and> (\<exists>pre m. snd (upload ev a) = pre @ [PrintErr m, Bell])"
  using upload_cases[of ev a]
proof (elim disjE exE conjE)
  fix e s assume p: "prepare ev a (io_init ev) = (Inl e, s)" and u: "upload ev a = (e, out s)"
  from u assms have "e = SysExit n" by simp
  with exit_ok_prepare[of ev a "io_init ev"] p u show ?thesis by (simp add: exit_ok_Inl)
next
  fix pr s e s' assume q: "submit ev a pr s = (Inl e, s')" and u: "upload ev a = (e, out s')"
  from u assms have "e = SysExit n" by simp
  with exit_ok_submit[of ev a pr s] q u show ?thesis by (simp add: exit_ok_Inl)
next
  fix s' :: io assume "upload ev a = (Returned, out s')"
  with assms show ?thesis by simp
qed

lemma upload_Returned:
  assumes "fst (upload ev a) = Returned"
  shows "\<exists>pre. snd (upload ev a) = pre @ [PrintCompleted] \<or> snd (upload ev a) = pre @ [PrintDisabled]"
  using upload_cases[of ev a]
proof (elim disjE exE conjE)
  fix e s assume p: "prepare ev a (io_init ev) = (Inl e, s)" and u: "upload ev a = (e, out s)"
  from u assms have "e = Returned" by simp
  with exit_ok_prepare[of ev a "io_init ev"] p show ?thesis by (simp add: exit_ok_Inl)
next
  fix pr s e s' assume q: "submit ev a pr s = (Inl e, s')" and u: "upload ev a = (e, out s')"
  from u assms have "e = Returned" by simp
  with exit_ok_submit[of ev a pr s] q show ?thesis by (simp add: exit_ok_Inl)
next
  fix pr s u s' assume q: "submit ev a pr s = (Inr u, s')" and u: "upload ev a = (Returned, out s')"
  from submit_Inr[OF q] u show ?thesis by simp
qed

lemma upload_quiet:
  assumes "skip_summary a" and "skip_files a"
  shows "list_all (\<lambda>e. \<not> upload_event e) (snd (upload ev a))"
proof -
  have "\<And>pr. emits (\<lambda>e. \<not> upload_event e) (submit ev a pr)"
    using assms by (simp add: submit_def emits_emit)
  then have "emits (\<lambda>e. \<not> upload_event e) (bind_io (prepare ev a) (submit ev a))"
    by (intro emits_bind emits_prepare)
  then obtain evs where "out (snd (bind_io (prepare ev a) (submit ev a) (io_init ev))) = out (io_init ev) @ evs"
    "list_all (\<lambda>e. \<not> upload_event e) evs"
    unfolding emits_def by blast
  then show ?thesis
    by (auto simp: upload_def io_init_def split: prod.splits sum.splits)
qed

lemma build_filter_ok:
  assumes "found (recognized st) f (date ss) (observatory ss) lbl_table \<noteq> []"
    and "read_table ev (chosen_for chosen f
           (found (recognized st) f (date ss) (observatory ss) lbl_table)) = Some t"
    and "timing t = Some (Inr (d, n))"
    and "first_valid_wcs (read_wcs ev)
           (found (recognized st) f (date ss) (observatory ss) lbl_wcs) = Some (w, sc)"
    and "psf_deltamag ev a dms f s = (Inr (p, dm), s1)"
    and "fst (aperture t) \<noteq> ApNaN"
  shows "\<exists>en. build_filter ev a i st ss chosen dms f s =
             (Inr en, s1\<lparr>out := out s1 @ [PrintSummary f en]\<rparr>) \<and>
           e_filter en = f \<and> e_psf en = p \<and> e_deltamag en = dm \<and> e_obsdur en = d \<and> e_obsnum en = n \<and>
           e_photaprad en = photaprad_str (fmt_photaprad ev) (fst (aperture t)) \<and>
           e_notes en = notes_final a (snd (aperture t))"
  using assms
  by (cases "aperture t")
     (simp add: build_filter_def Let_def bind_io_def emit_def ret_def raise_io_def)

lemma aperture_blank:
  assumes "map_of t ''Source_Radius'' = None \<or>
           (\<exists>c e. map_of t ''Source_Radius'' = Some c \<and> float_array c = Inl e)"
  shows "aperture t = (ApBlank, [])"
  using assms by (auto simp: aperture_def)

lemma sorted_listing_ok: "sort (listing env_ok) = [wcsfile, tblfile, notesfile]"
  by code_simp

lemma scan_three: "scan ''TIC12345678-01'' [wcsfile, tblfile, notesfile] = scan_ok"
  by (simp only: scan_ok_def sorted_listing_ok)

lemma no_disallowed: "find disallowed [wcsfile, tblfile, notesfile] = None"
  by code_simp

lemma id_match_tic: "id_match ''12345678.01'' = Some (''12345678'', ''01'')"
  by code_simp

lemma scan_ok_facts:
  "recognized scan_ok \<noteq> []"
  "remdups (map fst (bases scan_ok)) = [''20230115'']"
  "remdups (map snd (bases scan_ok)) = [''ObsA'']"
  "sort (remdups (map flt (recognized scan_ok))) = [''V'']"
  "global_notes scan_ok = [(notesfile, ''20230115'', ''ObsA'')]"
  by code_simp+

lemma scan_ok_found:
  "found (recognized scan_ok) ''V'' ''20230115'' ''ObsA'' lbl_table = [tblfile]"
  "found (recognized scan_ok) ''V'' ''20230115'' ''ObsA'' lbl_wcs = [wcsfile]"
  by code_simp+

lemma scan_ok_cands:
  "cands_of (recognized scan_ok) ''V'' =
     [\<lparr>fn = tblfile, desc = lbl_table, ymd = ''20230115'', obs = ''ObsA'', flt = ''V'', px = []\<rparr>]"
  by code_simp

lemma scan_ok_missing:
  "missing_by_flt (recognized scan_ok) session_ok ''V'' =
     [lbl_plotcfg, lbl_radec, ''Compstar Light Curve Plots'', ''Field Image with Apertures'',
      ''Zoomed-in FOV'', ''Seeing Profile'']"
  by code_simp

lemma check_args_ok:
  assumes "isdir ev" and "\<not> falsy (telsize a)" and "\<not> falsy (camera a)" and "\<not> falsy (coverage a)"
    and "strip (tic a) = ''12345678.01''" and "strip (toi a) = ''0''"
  shows "\<exists>i. check_args ev a s = (Inr i, s\<lparr>out := out s @ [Banner]\<rparr>) \<and>
             tgt_prefix i = ''TIC12345678-01''"
  using assms
  by (simp add: check_args_def bind_io_def emit_def ret_def Let_def id_match_tic)

lemma do_login_ok:
  assumes "login ev = Status c" and "c < 400"
  shows "do_login ev a s = (Inr (), s\<lparr>out := out s @ [PostLogin (username a) (password a), LoggedIn]\<rparr>)"
  using assms by (simp add: do_login_def bind_io_def emit_def ret_def)

lemma list_files_ok:
  assumes "sort (listing ev) = [wcsfile, tblfile, notesfile]"
  shows "list_files ev s = (Inr [wcsfile, tblfile, notesfile], s)"
  unfolding list_files_def Let_def assms no_disallowed
  by (simp add: ret_def)

lemma consistency_ok:
  "consistency i scan_ok s =
     (Inr session_ok,
      s\<lparr>out := out s @ [PrintTitle (target_title i), PrintDetected ''20230115'' ''ObsA'' [''V'']]\<rparr>)"
  by (simp add: consistency_def scan_ok_facts Let_def bind_io_def emit_def ret_def session_ok_def)

lemma select_tables_ok:
  assumes "rd tblfile = Some t"
    and "map_of t ''Source_Radius'' = None \<or>
         (\<exists>c sr. map_of t ''Source_Radius'' = Some c \<and> float_array c = Inr sr \<and> sr \<noteq> [])"
  shows "select_tables rd (recognized scan_ok) [''V''] = Inr [(''V'', tblfile)]"
proof -
  have "\<exists>m v. cand_stat rd \<lparr>fn = tblfile, desc = lbl_table, ymd = ''20230115'', obs = ''ObsA'',
                flt = ''V'', px = []\<rparr> = Inr (tblfile, m, v, [])"
    using assms by (auto simp: cand_stat_def)
  then obtain m v where "cand_stat rd \<lparr>fn = tblfile, desc = lbl_table, ymd = ''20230115'', obs = ''ObsA'',
                flt = ''V'', px = []\<rparr> = Inr (tblfile, m, v, [])"
    by (elim exE)
  then show ?thesis
    by (simp add: scan_ok_cands choose_table_def)
qed

lemma display_ok:
  "\<exists>evs. display st chosen ss s = (Inr (), s\<lparr>out := out s @ evs\<rparr>) \<and> prompts_of evs = []"
proof -
  have loop: "\<And>fs s. \<exists>evs. for_io fs (\<lambda>f.
          let ordered = ordered_display (recognized st) chosen ss f in
          if ordered \<noteq> [] then emit (PrintRecognized f ordered) else ret ()) s =
        (Inr (), s\<lparr>out := out s @ evs\<rparr>) \<and> prompts_of evs = []"
  proof -
    fix fs :: "string list" and s :: io
    show "\<exists>evs. for_io fs (\<lambda>f.
          let ordered = ordered_display (recognized st) chosen ss f in
          if ordered \<noteq> [] then emit (PrintRecognized f ordered) else ret ()) s =
        (Inr (), s\<lparr>out := out s @ evs\<rparr>) \<and> prompts_of evs = []"
    proof (induction fs arbitrary: s)
      case Nil
      show ?case by (intro exI[of _ "[]"]) (simp add: ret_def)
    next
      case (Cons f fs)
      define e1 where "e1 = (if ordered_display (recognized st) chosen ss f \<noteq> []
          then [PrintRecognized f (ordered_display (recognized st) chosen ss f)] else [])"
      from Cons[of "s\<lparr>out := out s @ e1\<rparr>"] obtain evs where
        e: "for_io fs (\<lambda>f.
          let ordered = ordered_display (recognized st) chosen ss f in
          if ordered \<noteq> [] then emit (PrintRecognized f ordered) else ret ()) (s\<lparr>out := out s @ e1\<rparr>) =
        (Inr (), s\<lparr>out := out s @ e1\<rparr>\<lparr>out := out (s\<lparr>out := out s @ e1\<rparr>) @ evs\<rparr>)"
        and p: "prompts_of evs = []"
        by (elim exE conjE)
      show ?case
        using e p
        by (intro exI[of _ "e1 @ evs"])
           (auto simp: e1_def Let_def bind_io_def emit_def ret_def prompts_of_append)
    qed
  qed
  from loop[of "filter_list ss" s] obtain e1 where
    l: "for_io (filter_list ss) (\<lambda>f.
          let ordered = ordered_display (recognized st) chosen ss f in
          if ordered \<noteq> [] then emit (PrintRecognized f ordered) else ret ()) s =
        (Inr (), s\<lparr>out := out s @ e1\<rparr>)" and p: "prompts_of e1 = []"
    by (elim exE conjE)
  show ?thesis
  proof (cases "rejected st = []")
    case True
    with l p show ?thesis
      by (intro exI[of _ e1]) (simp add: display_def bind_io_def ret_def)
  next
    case False
    with l p show ?thesis
      by (intro exI[of _ "e1 @ [PrintRejected (rejected st)]"])
         (simp add: display_def bind_io_def emit_def prompts_of_append)
  qed
qed

lemma single_args_ok:
  assumes "\<not> falsy (psf a)" and "\<not> falsy (deltamag a)"
  shows "\<exists>dm. single_args session_ok a s = (Inr (Some dm), s)"
  using assms by (simp add: single_args_def single_filter_def session_ok_def ret_def)

lemma wcs_ok:
  assumes "rd wcsfile = Scales sc" and "list_all scale_ok sc"
  shows "first_valid_wcs rd [wcsfile] = Some (wcsfile, map scale_val sc)"
  using assms by simp

lemma aperture_not_nan:
  assumes "map_of t ''Source_Radius'' = None \<or>
         (\<exists>c sr. map_of t ''Source_Radius'' = Some c \<and> float_array c = Inr sr \<and> sr \<noteq> [])"
  shows "fst (aperture t) \<noteq> ApNaN"
  using assms by (auto simp: aperture_def)

lemma bind_io_ok: "m s = (Inr x, s') \<Longrightarrow> bind_io m f s = f x s'"
  by (simp add: bind_io_def)

lemma bind_io_ret: "bind_io (ret x) f s = f x s"
  by (simp add: bind_io_def ret_def)

lemma prompts_of_pre_events: "prompts_of (pre_events st ss) = []"
  by (simp add: pre_events_def prompts_of_append prompts_of_optional)

lemma session_ok_simps:
  "date session_ok = ''20230115''" "observatory session_ok = ''ObsA''"
  "filter_list session_ok = [''V'']"
  by (simp_all add: session_ok_def)

lemma timing_tbl_ok: "timing tbl_ok = Some (Inr (''15'', ''2''))"
  by code_simp

section \<open>The claims\<close>



text \<open>
  C2. Every filename is classified into exactly one outcome: a rejection carrying the
  name and one of the three reasons, or a record carrying the name and the label of the
  first pattern of the rule table, in table order, that fully matches the tail. Over a
  whole listing the recognized and the rejected names partition the files.
\<close>

theorem classify_exactly_one:
  "((\<exists>why. classify p name = Inl (name, why) \<and>
        why \<in> {''Name does not match pattern'', ''TIC/planet mismatch'',
               ''Unrecognized filetype token''})
    \<noteq>
    (\<exists>r. classify p name = Inr r \<and> fn r = name \<and>
        (\<exists>m k. base_match name = Some m \<and> k < length allowed_specs \<and>
           fullmatch (fst (allowed_specs ! k)) (g_tail m) \<and> desc r = snd (allowed_specs ! k) \<and>
           (\<forall>j<k. \<not> fullmatch (fst (allowed_specs ! j)) (g_tail m)))))
   \<and> map fn (recognized (scan p files)) = filter (\<lambda>n. \<not> isl (classify p n)) files
   \<and> map fst (rejected (scan p files)) = filter (\<lambda>n. isl (classify p n)) files"
proof (intro conjI)
  show "(\<exists>why. classify p name = Inl (name, why) \<and>
        why \<in> {''Name does not match pattern'', ''TIC/planet mismatch'',
               ''Unrecognized filetype token''})
    \<noteq>
    (\<exists>r. classify p name = Inr r \<and> fn r = name \<and>
        (\<exists>m k. base_match name = Some m \<and> k < length allowed_specs \<and>
           fullmatch (fst (allowed_specs ! k)) (g_tail m) \<and> desc r = snd (allowed_specs ! k) \<and>
           (\<forall>j<k. \<not> fullmatch (fst (allowed_specs ! j)) (g_tail m))))"
  proof (cases "classify p name")
    case (Inl rj)
    obtain a b where rj: "rj = (a, b)" by (cases rj)
    show ?thesis
      using classify_Inl[OF Inl] Inl rj by auto
  next
    case (Inr r)
    from classify_Inr[OF Inr] obtain m where m: "fn r = name" "base_match name = Some m"
      "first_label allowed_specs (g_tail m) = Some (desc r)" by blast
    from first_label_Some[OF m(3)] m Inr show ?thesis by auto
  qed
next
  show "map fn (recognized (scan p files)) = filter (\<lambda>n. \<not> isl (classify p n)) files"
    using scan_fold[of p scan_init files] by (simp add: scan_def scan_init_def)
next
  show "map fst (rejected (scan p files)) = filter (\<lambda>n. isl (classify p n)) files"
    using scan_fold[of p scan_init files] by (simp add: scan_def scan_init_def)
qed

theorem classify_exactly_one_witness:
  "(\<exists>r. classify ''TIC12345678-01'' tblfile = Inr r \<and> desc r = lbl_table)
   \<and> map fn (recognized (scan ''TIC12345678-01'' [tblfile, ''README.md''])) = [tblfile]
   \<and> map fst (rejected (scan ''TIC12345678-01'' [tblfile, ''README.md''])) = [''README.md'']"
proof -
  have c1: "classify ''TIC12345678-01'' tblfile =
      Inr \<lparr>fn = tblfile, desc = lbl_table, ymd = ''20230115'', obs = ''ObsA'', flt = ''V'', px = []\<rparr>"
    by code_simp
  have c2: "classify ''TIC12345678-01'' ''README.md'' = Inl (''README.md'', ''Name does not match pattern'')"
    by code_simp
  show ?thesis
    using classify_exactly_one[of "''TIC12345678-01''" tblfile "[tblfile, ''README.md'']"] c1 c2
    by simp
qed



text \<open>
  C4. For every filter the missing required labels are exactly the required labels with
  no recognized file of that filter, date and observatory, and the missing optional labels
  likewise over the optional labels; with required labels X, Y, Z of which only X is
  found, the missing ones are Y and Z. When some filter misses a required label the
  completeness stage shows the one prompt \<open>Proceed with recognized files anyway?\<close>: it
  goes on when the answer, stripped and lowered, is \<open>y\<close>, and exits with status 1 after
  the alert on every other answer; with nothing typed the read raises EOFError. When no
  filter misses a required label no prompt is shown.
\<close>

theorem completeness_check:
  "set (missing_by_flt recd ss f) =
      {k \<in> set required_keys_per_filter.
         \<not> (\<exists>x\<in>set recd. flt x = f \<and> ymd x = date ss \<and> obs x = observatory ss \<and> desc x = k)}
   \<and> set (missing_opt_by_flt recd ss f) =
      {k \<in> set optional_keys.
         \<not> (\<exists>x\<in>set recd. flt x = f \<and> ymd x = date ss \<and> obs x = observatory ss \<and> desc x = k)}
   \<and> (X \<noteq> Y \<and> X \<noteq> Z \<and>
        {desc x | x. x \<in> set recd \<and> flt x = f \<and> ymd x = d \<and> obs x = ob} = {X} \<longrightarrow>
        missing [X, Y, Z] recd f d ob = [Y, Z])
   \<and> (\<exists>pre. prompts_of pre = [] \<and>
        (if list_ex (\<lambda>f. missing_by_flt (recognized st) ss f \<noteq> []) (filter_list ss) then
           (case inp s of
              [] \<Rightarrow> completeness st ss s =
                     (Inl (Raised EOFError), s\<lparr>out := out s @ pre @ [Input AskProceed]\<rparr>)
            | l # ls \<Rightarrow>
                if lower (strip l) = ''y''
                then completeness st ss s =
                       (Inr (), s\<lparr>inp := ls, out := out s @ pre @ [Input AskProceed]\<rparr>)
                else completeness st ss s =
                       (Inl (SysExit 1),
                        s\<lparr>inp := ls,
                          out := out s @ pre @ [Input AskProceed, PrintErr AbortedMissing, Bell]\<rparr>))
         else completeness st ss s = (Inr (), s\<lparr>out := out s @ pre\<rparr>)))"
proof (intro conjI)
  show "set (missing_by_flt recd ss f) =
      {k \<in> set required_keys_per_filter.
         \<not> (\<exists>x\<in>set recd. flt x = f \<and> ymd x = date ss \<and> obs x = observatory ss \<and> desc x = k)}"
    by (simp only: missing_by_flt_def set_missing)
next
  show "set (missing_opt_by_flt recd ss f) =
      {k \<in> set optional_keys.
         \<not> (\<exists>x\<in>set recd. flt x = f \<and> ymd x = date ss \<and> obs x = observatory ss \<and> desc x = k)}"
    by (simp only: missing_opt_by_flt_def set_missing)
next
  show "X \<noteq> Y \<and> X \<noteq> Z \<and>
        {desc x | x. x \<in> set recd \<and> flt x = f \<and> ymd x = d \<and> obs x = ob} = {X} \<longrightarrow>
        missing [X, Y, Z] recd f d ob = [Y, Z]"
    by (intro impI, elim conjE, rule missing_example)
next
  let ?any = "list_ex (\<lambda>f. missing_by_flt (recognized st) ss f \<noteq> []) (filter_list ss)"
  let ?pm = "PrintMissing (map (\<lambda>f. (f, missing_by_flt (recognized st) ss f))
                (filter (\<lambda>f. missing_by_flt (recognized st) ss f \<noteq> []) (filter_list ss)))"
  let ?pre = "if ?any then pre_events st ss @ [?pm] else pre_events st ss"
  have p: "prompts_of ?pre = []"
    by (simp add: pre_events_def prompts_of_append prompts_of_optional)
  have h: "if ?any then
           (case inp s of
              [] \<Rightarrow> completeness st ss s =
                     (Inl (Raised EOFError), s\<lparr>out := out s @ ?pre @ [Input AskProceed]\<rparr>)
            | l # ls \<Rightarrow>
                if lower (strip l) = ''y''
                then completeness st ss s =
                       (Inr (), s\<lparr>inp := ls, out := out s @ ?pre @ [Input AskProceed]\<rparr>)
                else completeness st ss s =
                       (Inl (SysExit 1),
                        s\<lparr>inp := ls,
                          out := out s @ ?pre @ [Input AskProceed, PrintErr AbortedMissing, Bell]\<rparr>))
         else completeness st ss s = (Inr (), s\<lparr>out := out s @ ?pre\<rparr>)"
    by (cases "inp s") (simp_all add: completeness_eq)
  show "\<exists>pre. prompts_of pre = [] \<and>
        (if ?any then
           (case inp s of
              [] \<Rightarrow> completeness st ss s =
                     (Inl (Raised EOFError), s\<lparr>out := out s @ pre @ [Input AskProceed]\<rparr>)
            | l # ls \<Rightarrow>
                if lower (strip l) = ''y''
                then completeness st ss s =
                       (Inr (), s\<lparr>inp := ls, out := out s @ pre @ [Input AskProceed]\<rparr>)
                else completeness st ss s =
                       (Inl (SysExit 1),
                        s\<lparr>inp := ls,
                          out := out s @ pre @ [Input AskProceed, PrintErr AbortedMissing, Bell]\<rparr>))
         else completeness st ss s = (Inr (), s\<lparr>out := out s @ pre\<rparr>))"
    by (rule exI[of _ ?pre], rule conjI, rule p, rule h)
qed

theorem completeness_check_witness:
  "missing_by_flt (recognized scan_ok) session_ok ''V'' =
     [lbl_plotcfg, lbl_radec, ''Compstar Light Curve Plots'', ''Field Image with Apertures'',
      ''Zoomed-in FOV'', ''Seeing Profile'']
   \<and> fst (completeness scan_ok session_ok \<lparr>inp = [''no''], out = []\<rparr>) = Inl (SysExit 1)
   \<and> fst (completeness scan_ok session_ok \<lparr>inp = ['' Y ''], out = []\<rparr>) = Inr ()"
proof -
  have m: "missing_by_flt (recognized scan_ok) session_ok ''V'' =
     [lbl_plotcfg, lbl_radec, ''Compstar Light Curve Plots'', ''Field Image with Apertures'',
      ''Zoomed-in FOV'', ''Seeing Profile'']"
    by code_simp
  have any: "list_ex (\<lambda>f. missing_by_flt (recognized scan_ok) session_ok f \<noteq> []) (filter_list session_ok)"
    by code_simp
  have no: "lower (strip ''no'') \<noteq> ''y''" by code_simp
  have yes: "lower (strip '' Y '') = ''y''" by code_simp
  from completeness_check[where st = scan_ok and ss = session_ok and s = "\<lparr>inp = [''no''], out = []\<rparr>",
      THEN conjunct2, THEN conjunct2, THEN conjunct2]
  obtain pre1 where "completeness scan_ok session_ok \<lparr>inp = [''no''], out = []\<rparr> =
      (Inl (SysExit 1),
       \<lparr>inp = [''no''], out = []\<rparr>\<lparr>inp := [], out := out \<lparr>inp = [''no''], out = []\<rparr> @ pre1 @
          [Input AskProceed, PrintErr AbortedMissing, Bell]\<rparr>)"
    using any no by (elim exE conjE) (simp only: if_True if_False io.simps list.case)
  then have a: "fst (completeness scan_ok session_ok \<lparr>inp = [''no''], out = []\<rparr>) = Inl (SysExit 1)"
    by (simp only: fst_conv)
  from completeness_check[where st = scan_ok and ss = session_ok and s = "\<lparr>inp = ['' Y ''], out = []\<rparr>",
      THEN conjunct2, THEN conjunct2, THEN conjunct2]
  obtain pre2 where "completeness scan_ok session_ok \<lparr>inp = ['' Y ''], out = []\<rparr> =
      (Inr (),
       \<lparr>inp = ['' Y ''], out = []\<rparr>\<lparr>inp := [], out := out \<lparr>inp = ['' Y ''], out = []\<rparr> @ pre2 @
          [Input AskProceed]\<rparr>)"
    using any yes by (elim exE conjE) (simp only: if_True if_False io.simps list.case)
  then have b: "fst (completeness scan_ok session_ok \<lparr>inp = ['' Y ''], out = []\<rparr>) = Inr ()"
    by (simp only: fst_conv)
  from m a b show ?thesis by (intro conjI)
qed

text \<open>
  C5, as amended. A directory holding one valid measurement table, one valid plate-solved
  file and the notes, all of date 20230115, observatory ObsA, filter V and prefix
  TIC12345678-01, has six of the eight required descriptors missing for filter V. The run
  asks once whether to proceed, and when the answer is \<open>y\<close> it reaches the building of
  the entries and builds exactly one, for filter V (login accepted, target 12345678.01
  without TOI, telescope size, camera, coverage, point-spread width and delta-magnitude
  given).
\<close>

theorem three_files_one_entry:
  assumes "isdir ev" and "sort (listing ev) = [wcsfile, tblfile, notesfile]"
    and "login ev = Status c" and "c < 400"
    and "read_table ev tblfile = Some t" and "timing t = Some (Inr (d, n))"
    and "map_of t ''Source_Radius'' = None \<or>
         (\<exists>col sr. map_of t ''Source_Radius'' = Some col \<and> float_array col = Inr sr \<and> sr \<noteq> [])"
    and "read_wcs ev wcsfile = Scales sc" and "list_all scale_ok sc"
    and "stdin ev = l # rest" and "lower (strip l) = ''y''"
    and "strip (tic a) = ''12345678.01''" and "strip (toi a) = ''0''"
    and "\<not> falsy (telsize a)" and "\<not> falsy (camera a)" and "\<not> falsy (coverage a)"
    and "\<not> falsy (psf a)" and "\<not> falsy (deltamag a)"
  shows "\<exists>pr s. prepare ev a (io_init ev) = (Inr pr, s)
           \<and> map fst (p_entries pr) = [''V'']
           \<and> map e_filter (map snd (p_entries pr)) = [''V'']
           \<and> missing_by_flt (recognized (p_scan pr)) (p_session pr) ''V'' =
               [lbl_plotcfg, lbl_radec, ''Compstar Light Curve Plots'',
                ''Field Image with Apertures'', ''Zoomed-in FOV'', ''Seeing Profile'']
           \<and> prompts_of (out s) = [AskProceed]
           \<and> inp s = rest"
proof -
  define s0 where "s0 = io_init ev"
  define s1 where "s1 = s0\<lparr>out := out s0 @ [Banner]\<rparr>"
  define s2 where "s2 = s1\<lparr>out := out s1 @ [PostLogin (username a) (password a), LoggedIn]\<rparr>"
  from check_args_ok[OF assms(1) assms(14) assms(15) assms(16) assms(12) assms(13), of s0]
  obtain i where ca: "check_args ev a s0 = (Inr i, s1)" and tp: "tgt_prefix i = ''TIC12345678-01''"
    unfolding s1_def by (elim exE conjE)
  have lg: "do_login ev a s1 = (Inr (), s2)"
    unfolding s2_def by (rule do_login_ok[OF assms(3) assms(4)])
  have lf: "list_files ev s2 = (Inr [wcsfile, tblfile, notesfile], s2)"
    by (rule list_files_ok[OF assms(2)])
  define s3 where "s3 = s2\<lparr>out := out s2 @ [PrintTitle (target_title i),
      PrintDetected ''20230115'' ''ObsA'' [''V'']]\<rparr>"
  have cs: "consistency i scan_ok s2 = (Inr session_ok, s3)"
    unfolding s3_def by (rule consistency_ok)
  have sel: "select_tables (read_table ev) (recognized scan_ok) [''V''] = Inr [(''V'', tblfile)]"
    by (rule select_tables_ok[where rd = "read_table ev" and t = t, OF assms(5) assms(7)])
  from display_ok[of scan_ok "[(''V'', tblfile)]" session_ok s3]
  obtain evs where dsp0: "display scan_ok [(''V'', tblfile)] session_ok s3 = (Inr (), s3\<lparr>out := out s3 @ evs\<rparr>)"
    and pevs: "prompts_of evs = []"
    by (elim exE conjE)
  define s4 where "s4 = s3\<lparr>out := out s3 @ evs\<rparr>"
  have dsp: "display scan_ok [(''V'', tblfile)] session_ok s3 = (Inr (), s4)"
    unfolding s4_def by (rule dsp0)
  have inp4: "inp s4 = l # rest"
    by (simp add: s4_def s3_def s2_def s1_def s0_def io_init_def assms(10))
  have any: "list_ex (\<lambda>f. missing_by_flt (recognized scan_ok) session_ok f \<noteq> []) (filter_list session_ok)"
    by (simp add: session_ok_simps scan_ok_missing)
  define pm where "pm = PrintMissing (map (\<lambda>f. (f, missing_by_flt (recognized scan_ok) session_ok f))
                (filter (\<lambda>f. missing_by_flt (recognized scan_ok) session_ok f \<noteq> []) (filter_list session_ok)))"
  define s5 where "s5 = s4\<lparr>inp := rest, out := out s4 @ pre_events scan_ok session_ok @ [pm, Input AskProceed]\<rparr>"
  have cmp: "completeness scan_ok session_ok s4 = (Inr (), s5)"
    unfolding s5_def pm_def using any inp4 assms(11) by (simp add: completeness_eq)
  from single_args_ok[OF assms(17) assms(18), of s5]
  obtain dm where sa: "single_args session_ok a s5 = (Inr (Some dm), s5)"
    by (elim exE)
  have pd: "psf_deltamag ev a (Some dm) ''V'' s5 = (Inr (strip (str_of (psf a)), dm), s5)"
    by (simp add: psf_deltamag_def ret_def)
  have fnd_t: "found (recognized scan_ok) ''V'' (date session_ok) (observatory session_ok) lbl_table = [tblfile]"
    and fnd_w: "found (recognized scan_ok) ''V'' (date session_ok) (observatory session_ok) lbl_wcs = [wcsfile]"
    by (simp_all add: session_ok_simps scan_ok_found)
  have b1: "found (recognized scan_ok) ''V'' (date session_ok) (observatory session_ok) lbl_table \<noteq> []"
    by (simp add: fnd_t)
  have b2: "read_table ev (chosen_for [(''V'', tblfile)] ''V''
      (found (recognized scan_ok) ''V'' (date session_ok) (observatory session_ok) lbl_table)) = Some t"
    by (simp add: fnd_t chosen_for_def assms(5))
  have b4: "first_valid_wcs (read_wcs ev)
      (found (recognized scan_ok) ''V'' (date session_ok) (observatory session_ok) lbl_wcs) =
      Some (wcsfile, map scale_val sc)"
    unfolding fnd_w by (rule wcs_ok[where rd = "read_wcs ev", OF assms(8) assms(9)])
  from build_filter_ok[OF b1 b2 assms(6) b4 pd aperture_not_nan[OF assms(7)], of i]
  obtain en where bf0: "build_filter ev a i scan_ok session_ok [(''V'', tblfile)] (Some dm) ''V'' s5 =
        (Inr en, s5\<lparr>out := out s5 @ [PrintSummary ''V'' en]\<rparr>)"
    and ef: "e_filter en = ''V''"
    by (elim exE conjE)
  define s6 where "s6 = s5\<lparr>out := out s5 @ [PrintSummary ''V'' en]\<rparr>"
  have bf: "build_filter ev a i scan_ok session_ok [(''V'', tblfile)] (Some dm) ''V'' s5 = (Inr en, s6)"
    unfolding s6_def by (rule bf0)
  have ba: "build_all ev a i scan_ok session_ok [(''V'', tblfile)] (Some dm) [''V''] s5 =
      (Inr [(''V'', en)], s6)"
    by (simp add: bind_io_ok[where m = "build_filter ev a i scan_ok session_ok [(''V'', tblfile)] (Some dm) ''V''"
          and s = s5, OF bf] bind_io_ret ret_def)
  have prep: "prepare ev a s0 =
      (Inr \<lparr>p_ids = i, p_scan = scan_ok, p_session = session_ok, p_chosen = [(''V'', tblfile)],
            p_entries = [(''V'', en)]\<rparr>, s6)"
    unfolding prepare_def
    by (simp only:
        bind_io_ok[where m = "check_args ev a" and s = s0, OF ca]
        bind_io_ok[where m = "do_login ev a" and s = s1, OF lg]
        bind_io_ok[where m = "list_files ev" and s = s2, OF lf]
        tp scan_three
        bind_io_ok[where m = "consistency i scan_ok" and s = s2, OF cs]
        session_ok_simps sel sum.case
        bind_io_ok[where m = "display scan_ok [(''V'', tblfile)] session_ok" and s = s3, OF dsp]
        bind_io_ok[where m = "completeness scan_ok session_ok" and s = s4, OF cmp]
        bind_io_ok[where m = "single_args session_ok a" and s = s5, OF sa]
        bind_io_ok[where m = "build_all ev a i scan_ok session_ok [(''V'', tblfile)] (Some dm) [''V'']"
          and s = s5, OF ba]
        ret_def)
  have po: "prompts_of (out s6) = [AskProceed]"
    by (simp add: s6_def s5_def s4_def s3_def s2_def s1_def s0_def io_init_def pm_def
        prompts_of_append prompts_of_pre_events pevs)
  have i6: "inp s6 = rest"
    by (simp add: s6_def s5_def)
  show ?thesis
    by (rule exI[of _ "\<lparr>p_ids = i, p_scan = scan_ok, p_session = session_ok,
          p_chosen = [(''V'', tblfile)], p_entries = [(''V'', en)]\<rparr>"], rule exI[of _ s6])
       (simp add: prep[unfolded s0_def] ef scan_ok_missing po i6)
qed

theorem three_files_one_entry_witness:
  "\<exists>pr s. prepare env_ok args_ok (io_init env_ok) = (Inr pr, s)
           \<and> map fst (p_entries pr) = [''V'']
           \<and> prompts_of (out s) = [AskProceed]"
proof -
  have h1: "isdir env_ok" by (simp add: env_ok_def)
  have h3: "login env_ok = Status 200" by (simp add: env_ok_def)
  have h4: "(200::nat) < 400" by simp
  have h5: "read_table env_ok tblfile = Some tbl_ok" by (simp add: env_ok_def)
  have h7: "map_of tbl_ok ''Source_Radius'' = None \<or>
         (\<exists>col sr. map_of tbl_ok ''Source_Radius'' = Some col \<and> float_array col = Inr sr \<and> sr \<noteq> [])"
    by (simp add: tbl_ok_def)
  have h8: "read_wcs env_ok wcsfile = Scales [Fin 0.5, Fin 0.5]" by (simp add: env_ok_def)
  have h9: "list_all scale_ok [Fin 0.5, Fin 0.5]" by simp
  have h10: "stdin env_ok = ''y'' # [[]]" by (simp add: env_ok_def)
  have h11: "lower (strip ''y'') = ''y''" by code_simp
  have h12: "strip (tic args_ok) = ''12345678.01''" by code_simp
  have h13: "strip (toi args_ok) = ''0''" by code_simp
  have h14: "\<not> falsy (telsize args_ok)" "\<not> falsy (camera args_ok)" "\<not> falsy (coverage args_ok)"
    "\<not> falsy (psf args_ok)" "\<not> falsy (deltamag args_ok)"
    by (simp_all add: args_ok_def)
  from three_files_one_entry[OF h1 sorted_listing_ok h3 h4 h5 timing_tbl_ok h7 h8 h9 h10 h11 h12 h13 h14]
  obtain pr s where "prepare env_ok args_ok (io_init env_ok) = (Inr pr, s)"
    "map fst (p_entries pr) = [''V'']" "prompts_of (out s) = [AskProceed]"
    by (elim exE conjE)
  then show ?thesis by (intro exI conjI)
qed

text \<open>
  Such a directory does not reach the build stage with no required descriptor missing.
  On the concrete observation set the required descriptors of filter V are not all
  present, the run reports the six missing ones, and when the answer at the prompt is
  \<open>n\<close> it exits with status 1 and submits nothing.
\<close>

theorem three_files_missing_required:
  "missing_by_flt (recognized scan_ok) session_ok ''V'' \<noteq> []
   \<and> PrintMissing [(''V'', [lbl_plotcfg, lbl_radec, ''Compstar Light Curve Plots'',
        ''Field Image with Apertures'', ''Zoomed-in FOV'', ''Seeing Profile''])]
       \<in> set (snd (upload env_ok args_ok))
   \<and> fst (upload env_decline args_ok) = SysExit 1
   \<and> submitted (snd (upload env_decline args_ok)) = []"
  by code_simp

text \<open>
  C6 on the concrete observation set when the table reader fails on every file. The
  selection catches the failure and still chooses the only candidate; the build stage then
  reads the same file again at line 221, outside any \<open>try\<close>, and the reader's exception
  leaves \<open>upload\<close>.
\<close>

theorem unreadable_table_raises:
  "select_tables (read_table env_unreadable) (recognized scan_ok) [''V''] = Inr [(''V'', tblfile)]
   \<and> fst (upload env_unreadable args_ok) = Raised ReaderError
   \<and> last (snd (upload env_unreadable args_ok)) = Input AskProceed"
  by code_simp

text \<open>
  C7, as amended. Every exit of the run through \<open>sys.exit\<close> has status 1 and comes
  right after the error message and the bell of \<open>_err\<close>; the status is 0 exactly when
  \<open>upload\<close> returns, which it does only after printing that the uploads are completed
  or that they are disabled. The user declining is one of the exits with status 1:
  answering \<open>n\<close> at the submit prompt, and answering anything but \<open>y\<close> at the prompt
  about missing required files.
\<close>

theorem exit_status:
  "(\<forall>n. fst (upload ev a) = SysExit n \<longrightarrow>
        n = 1 \<and> (\<exists>pre m. snd (upload ev a) = pre @ [PrintErr m, Bell]))
   \<and> (exit_code (fst (upload ev a)) = 0 \<longleftrightarrow> fst (upload ev a) = Returned)
   \<and> (fst (upload ev a) = Returned \<longrightarrow>
        (\<exists>pre. snd (upload ev a) = pre @ [PrintCompleted] \<or>
               snd (upload ev a) = pre @ [PrintDisabled]))
   \<and> (\<not> (skip_summary a \<and> skip_files a) \<and> inp s = l # ls \<and> lower (strip l) = ''n'' \<longrightarrow>
        submit ev a pr s =
          (Inl (SysExit 1),
           s\<lparr>inp := ls, out := out s @ [Input AskSubmit, PrintErr UserCancelled, Bell]\<rparr>))
   \<and> (list_ex (\<lambda>f. missing_by_flt (recognized st) ss f \<noteq> []) (filter_list ss) \<and>
        inp s = l # ls \<and> lower (strip l) \<noteq> ''y'' \<longrightarrow>
        fst (completeness st ss s) = Inl (SysExit 1))"
proof -
  have c1: "\<forall>n. fst (upload ev a) = SysExit n \<longrightarrow>
        n = 1 \<and> (\<exists>pre m. snd (upload ev a) = pre @ [PrintErr m, Bell])"
    using upload_SysExit by (intro allI impI)
  have c2: "exit_code (fst (upload ev a)) = 0 \<longleftrightarrow> fst (upload ev a) = Returned"
  proof (cases "fst (upload ev a)")
    case Returned
    then show ?thesis by simp
  next
    case (SysExit n)
    with upload_SysExit[OF SysExit] show ?thesis by simp
  next
    case (Raised e)
    then show ?thesis by simp
  qed
  have c3: "fst (upload ev a) = Returned \<longrightarrow>
        (\<exists>pre. snd (upload ev a) = pre @ [PrintCompleted] \<or>
               snd (upload ev a) = pre @ [PrintDisabled])"
    using upload_Returned by (intro impI)
  have c4: "\<not> (skip_summary a \<and> skip_files a) \<and> inp s = l # ls \<and> lower (strip l) = ''n'' \<longrightarrow>
        submit ev a pr s =
          (Inl (SysExit 1),
           s\<lparr>inp := ls, out := out s @ [Input AskSubmit, PrintErr UserCancelled, Bell]\<rparr>)"
    by (intro impI, elim conjE, rule submit_cancel)
  have c5: "list_ex (\<lambda>f. missing_by_flt (recognized st) ss f \<noteq> []) (filter_list ss) \<and>
        inp s = l # ls \<and> lower (strip l) \<noteq> ''y'' \<longrightarrow>
        fst (completeness st ss s) = Inl (SysExit 1)"
    by (simp add: completeness_eq)
  from c1 c2 c3 c4 c5 show ?thesis by (intro conjI)
qed

theorem exit_status_witness:
  "fst (upload env_cancel args_ok) = SysExit 1
   \<and> (\<exists>pre m. snd (upload env_cancel args_ok) = pre @ [PrintErr m, Bell])"
proof -
  have f: "fst (upload env_cancel args_ok) = SysExit 1" by code_simp
  from exit_status[of env_cancel args_ok, THEN conjunct1, rule_format, OF f]
  have "\<exists>pre m. snd (upload env_cancel args_ok) = pre @ [PrintErr m, Bell]"
    by (rule conjunct2)
  with f show ?thesis by (intro conjI)
qed

text \<open>
  A run the user cancels does not end with status 0. On the concrete observation set,
  with \<open>y\<close> typed at the first prompt and \<open>n\<close> at the submit prompt,
  the run exits with status 1.
\<close>

theorem user_cancel_exits_1:
  "exit_code (fst (upload env_cancel args_ok)) = 1
   \<and> prompts_of (snd (upload env_cancel args_ok)) = [AskProceed, AskSubmit]
   \<and> PrintErr UserCancelled \<in> set (snd (upload env_cancel args_ok))"
  by code_simp

text \<open>
  C8 on the concrete observation set, a run with one filter, with \<open>--psf abc\<close> and
  \<open>--deltamag xyz\<close> while \<open>float\<close> accepts neither: the run completes and submits
  both strings as they are.
\<close>

theorem single_filter_psf_not_validated:
  "\<not> is_float env_ok ''abc'' \<and> \<not> is_float env_ok ''xyz''
   \<and> fst (upload env_ok args_bad) = Returned
   \<and> map e_psf (submitted (snd (upload env_ok args_bad))) = [''abc'']
   \<and> map e_deltamag (submitted (snd (upload env_ok args_bad))) = [''xyz'']"
  by code_simp

text \<open>
  C9. With both the suppress-submission and the suppress-upload flag set, no event of
  the run is the submit prompt, a time-series submission or a file upload; and when the
  stages before the uploads succeed, the run has printed the observation summary of every
  filter, prints that uploads are disabled and returns, with exit status 0.
\<close>

theorem skip_both_flags:
  assumes "skip_summary a" and "skip_files a"
  shows "list_all (\<lambda>e. \<not> upload_event e) (snd (upload ev a))
       \<and> (\<forall>pr s. prepare ev a (io_init ev) = (Inr pr, s) \<longrightarrow>
            upload ev a = (Returned, out s @ [PrintDisabled]) \<and>
            exit_code (fst (upload ev a)) = 0 \<and>
            (\<forall>f\<in>set (filter_list (p_session pr)). \<exists>en. PrintSummary f en \<in> set (out s)))
       \<and> (\<forall>e s. prepare ev a (io_init ev) = (Inl e, s) \<longrightarrow> upload ev a = (e, out s))"
proof (intro conjI allI impI)
  show "list_all (\<lambda>e. \<not> upload_event e) (snd (upload ev a))"
    using assms by (rule upload_quiet)
next
  fix pr s assume p: "prepare ev a (io_init ev) = (Inr pr, s)"
  show u: "upload ev a = (Returned, out s @ [PrintDisabled])"
    by (simp add: upload_def bind_io_def p submit_skip[OF assms])
  then show "exit_code (fst (upload ev a)) = 0" by simp
  from prepare_Inr[OF p] obtain i st chosen dms s1 where
    "build_all ev a i st (p_session pr) chosen dms (filter_list (p_session pr)) s1 = (Inr (p_entries pr), s)"
    by (elim exE)
  from build_all_summaries[OF this]
  show "\<forall>f\<in>set (filter_list (p_session pr)). \<exists>en. PrintSummary f en \<in> set (out s)"
    by (elim conjE)
next
  fix e s assume p: "prepare ev a (io_init ev) = (Inl e, s)"
  show "upload ev a = (e, out s)"
    by (simp add: upload_def bind_io_def p)
qed

theorem skip_both_flags_witness:
  "skip_summary args_skip \<and> skip_files args_skip
   \<and> fst (upload env_ok args_skip) = Returned
   \<and> prompts_of (snd (upload env_ok args_skip)) = [AskProceed]
   \<and> list_all (\<lambda>e. \<not> upload_event e) (snd (upload env_ok args_skip))"
proof -
  have s1: "skip_summary args_skip" and s2: "skip_files args_skip"
    by (simp_all add: args_skip_def)
  have r: "fst (upload env_ok args_skip) = Returned" by code_simp
  have p: "prompts_of (snd (upload env_ok args_skip)) = [AskProceed]" by code_simp
  from skip_both_flags[OF s1 s2, of env_ok, THEN conjunct1] s1 s2 r p
  show ?thesis by (intro conjI)
qed

text \<open>
  C10. When the chosen table has no Source_Radius column, or the column cannot be
  converted to floats, the exception is swallowed at build time: the aperture radius of
  the entry is the empty string, no variability advisory is added to the notes, and the
  loop body goes on to build the entry and print its summary whenever the other steps of
  the body succeed.
\<close>

theorem aperture_swallowed:
  assumes "map_of t ''Source_Radius'' = None \<or>
           (\<exists>c e. map_of t ''Source_Radius'' = Some c \<and> float_array c = Inl e)"
  shows "aperture t = (ApBlank, [])
       \<and> photaprad_str fmt (fst (aperture t)) = []
       \<and> notes_final a (snd (aperture t)) = strip (case notes_arg a of None \<Rightarrow> [] | Some v \<Rightarrow> v)
       \<and> (\<forall>ev b i st ss chosen dms f s d n w sc p dm s1.
            found (recognized st) f (date ss) (observatory ss) lbl_table \<noteq> [] \<and>
            read_table ev (chosen_for chosen f
              (found (recognized st) f (date ss) (observatory ss) lbl_table)) = Some t \<and>
            timing t = Some (Inr (d, n)) \<and>
            first_valid_wcs (read_wcs ev)
              (found (recognized st) f (date ss) (observatory ss) lbl_wcs) = Some (w, sc) \<and>
            psf_deltamag ev b dms f s = (Inr (p, dm), s1) \<longrightarrow>
            (\<exists>en. build_filter ev b i st ss chosen dms f s =
                     (Inr en, s1\<lparr>out := out s1 @ [PrintSummary f en]\<rparr>) \<and>
                  e_photaprad en = [] \<and>
                  e_notes en = strip (case notes_arg b of None \<Rightarrow> [] | Some v \<Rightarrow> v)))"
proof -
  have ap: "aperture t = (ApBlank, [])"
    using assms by (rule aperture_blank)
  have c2: "photaprad_str fmt (fst (aperture t)) = []"
    by (simp add: ap)
  have c3: "\<And>b. notes_final b (snd (aperture t)) = strip (case notes_arg b of None \<Rightarrow> [] | Some v \<Rightarrow> v)"
    by (simp add: ap notes_final_def)
  have c4: "\<forall>ev b i st ss chosen dms f s d n w sc p dm s1.
            found (recognized st) f (date ss) (observatory ss) lbl_table \<noteq> [] \<and>
            read_table ev (chosen_for chosen f
              (found (recognized st) f (date ss) (observatory ss) lbl_table)) = Some t \<and>
            timing t = Some (Inr (d, n)) \<and>
            first_valid_wcs (read_wcs ev)
              (found (recognized st) f (date ss) (observatory ss) lbl_wcs) = Some (w, sc) \<and>
            psf_deltamag ev b dms f s = (Inr (p, dm), s1) \<longrightarrow>
            (\<exists>en. build_filter ev b i st ss chosen dms f s =
                     (Inr en, s1\<lparr>out := out s1 @ [PrintSummary f en]\<rparr>) \<and>
                  e_photaprad en = [] \<and>
                  e_notes en = strip (case notes_arg b of None \<Rightarrow> [] | Some v \<Rightarrow> v))"
  proof (intro allI impI, elim conjE)
    fix ev :: env and b :: args and i :: ids and st :: scan_state and ss :: session
      and chosen :: "(string \<times> string) list" and dms :: "string option" and f :: string
      and s :: io and d n w :: string and sc :: "real list" and p dm :: string and s1 :: io
    assume h: "found (recognized st) f (date ss) (observatory ss) lbl_table \<noteq> []"
      "read_table ev (chosen_for chosen f
              (found (recognized st) f (date ss) (observatory ss) lbl_table)) = Some t"
      "timing t = Some (Inr (d, n))"
      "first_valid_wcs (read_wcs ev)
              (found (recognized st) f (date ss) (observatory ss) lbl_wcs) = Some (w, sc)"
      "psf_deltamag ev b dms f s = (Inr (p, dm), s1)"
    have na: "fst (aperture t) \<noteq> ApNaN" by (simp add: ap)
    from build_filter_ok[OF h na, of i] obtain en where
      "build_filter ev b i st ss chosen dms f s = (Inr en, s1\<lparr>out := out s1 @ [PrintSummary f en]\<rparr>)"
      "e_photaprad en = photaprad_str (fmt_photaprad ev) (fst (aperture t))"
      "e_notes en = notes_final b (snd (aperture t))"
      by (elim exE conjE)
    then show "\<exists>en. build_filter ev b i st ss chosen dms f s =
                     (Inr en, s1\<lparr>out := out s1 @ [PrintSummary f en]\<rparr>) \<and>
                  e_photaprad en = [] \<and>
                  e_notes en = strip (case notes_arg b of None \<Rightarrow> [] | Some v \<Rightarrow> v)"
      by (intro exI[of _ en]) (simp add: ap notes_final_def)
  qed
  from ap c2 c3[of a] c4 show ?thesis by (intro conjI)
qed

theorem aperture_swallowed_witness:
  "aperture tbl_norad = (ApBlank, [])
   \<and> fst (upload env_norad args_ok) = Returned
   \<and> map e_photaprad (submitted (snd (upload env_norad args_ok))) = [[]]
   \<and> map e_notes (submitted (snd (upload env_norad args_ok))) = [[]]"
proof -
  have h: "map_of tbl_norad ''Source_Radius'' = None \<or>
           (\<exists>c e. map_of tbl_norad ''Source_Radius'' = Some c \<and> float_array c = Inl e)"
    by (simp add: tbl_norad_def)
  have r: "fst (upload env_norad args_ok) = Returned" by code_simp
  have p: "map e_photaprad (submitted (snd (upload env_norad args_ok))) = [[]]" by code_simp
  have n: "map e_notes (submitted (snd (upload env_norad args_ok))) = [[]]" by code_simp
  from aperture_swallowed[OF h, THEN conjunct1] r p n show ?thesis by (intro conjI)
qed

end
